theory Spec2Isabelle
  imports Complex_Main "HOL-Library.Word" "HOL-Library.Multiset" "HOL-Library.Signed_Division"
    "HOL-Library.Log_Nat"
begin

section \<open>Forecast module: data model\<close>

text \<open>
  JavaScript numbers are modelled as real numbers (no NaN), without rounding except in
  the score that orders the predictions, which is computed in doubles; counts and
  indices are natural numbers, \<^verbatim>\<open>Math.round\<close> results are integers. A \<^verbatim>\<open>Date\<close> is its
  number of milliseconds, read in local time with a constant offset from UTC. The four
  state labels \<^verbatim>\<open>'Flow State'\<close>, \<^verbatim>\<open>'Normal Learning'\<close>,
  \<^verbatim>\<open>'Standby'\<close> and \<^verbatim>\<open>'Distracted'\<close> are the only strings the classifier returns; they
  are the constructors of \<open>study_state\<close>.
\<close>

datatype study_state = FlowState | NormalLearning | Standby | Distracted

text \<open>The constants of \<^verbatim>\<open>STATE_THRESHOLDS\<close> and \<^verbatim>\<open>PREDICTION_CONFIG\<close>.\<close>

definition NOISE_THRESHOLD :: real where "NOISE_THRESHOLD = 55"
definition BPM_LOW :: real where "BPM_LOW = 60"
definition BPM_HIGH :: real where "BPM_HIGH = 80"
definition HRV_THRESHOLD :: real where "HRV_THRESHOLD = 700"
definition BPM_MIN_VALID :: real where "BPM_MIN_VALID = 40"
definition BPM_MAX_VALID :: real where "BPM_MAX_VALID = 200"

definition PREDICTION_WINDOW :: nat where "PREDICTION_WINDOW = 24"
definition MIN_DATA_POINTS :: nat where "MIN_DATA_POINTS = 100"
definition FLOW_STATE_THRESHOLD :: real where "FLOW_STATE_THRESHOLD = 3 / 10"
definition TOP_PREDICTIONS :: nat where "TOP_PREDICTIONS = 5"

subsection \<open>State classification\<close>

definition classifyStateForPrediction :: "real \<Rightarrow> real \<Rightarrow> real \<Rightarrow> study_state" where
  "classifyStateForPrediction noise bpm rrInterval =
     (if bpm < BPM_MIN_VALID \<or> bpm > BPM_MAX_VALID then Standby
      else
        let isQuiet = noise < NOISE_THRESHOLD;
            hasGoodHRV = rrInterval > HRV_THRESHOLD;
            hasOptimalBPM = (bpm \<ge> BPM_LOW \<and> bpm \<le> BPM_HIGH);
            isGoodPhysio = hasGoodHRV \<or> hasOptimalBPM
        in if isQuiet \<and> isGoodPhysio then FlowState
           else if \<not> isQuiet \<and> isGoodPhysio then NormalLearning
           else if isQuiet \<and> \<not> isGoodPhysio then Standby
           else Distracted)"

text \<open>
  The four-quadrant rule in the words of the specification, for comparison with the
  function above.
\<close>

definition spec_isQuiet :: "real \<Rightarrow> bool" where
  "spec_isQuiet noiseDb = (noiseDb < 55.0)"

definition spec_isGoodPhysio :: "real \<Rightarrow> real \<Rightarrow> bool" where
  "spec_isGoodPhysio bpm rrIntervalMs = (rrIntervalMs > 700 \<or> (60 \<le> bpm \<and> bpm \<le> 80))"

fun spec_quadrant :: "bool \<Rightarrow> bool \<Rightarrow> study_state" where
  "spec_quadrant True True = FlowState"
| "spec_quadrant False True = NormalLearning"
| "spec_quadrant True False = Standby"
| "spec_quadrant False False = Distracted"


subsection \<open>Historical rows\<close>

text \<open>
  One element of \<^verbatim>\<open>data.feeds\<close>. The fields hold what \<^verbatim>\<open>parseFloat\<close> and \<^verbatim>\<open>parseInt\<close>
  make of the text: \<open>None\<close> is \<^verbatim>\<open>NaN\<close> (a missing or non-numeric field).
\<close>

record feed =
  created_at :: int
  field2 :: "real option"
  field3 :: "real option"
  field5 :: "int option"
  field6 :: "int option"

text \<open>\<^verbatim>\<open>x || 0\<close> on a number: \<^verbatim>\<open>NaN\<close> and zero give zero.\<close>

definition or_zero :: "'a::zero option \<Rightarrow> 'a" where
  "or_zero v = (case v of None \<Rightarrow> 0 | Some x \<Rightarrow> x)"

definition getHours :: "int \<Rightarrow> nat" where
  "getHours t = nat ((t div 3600000) mod 24)"

text \<open>Day of the week, Sunday = 0; the first of January 1970 was a Thursday.\<close>

definition getDay :: "int \<Rightarrow> nat" where
  "getDay t = nat ((t div 86400000 + 4) mod 7)"

text \<open>
  The objects built by the \<^verbatim>\<open>map\<close> callback of \<^verbatim>\<open>fetchPredictionHistoricalData\<close>
  (fields prefixed with \<open>e_\<close>; the \<^verbatim>\<open>date\<close> string is never read and is left out).
\<close>

record entry =
  e_timestamp :: int
  e_hour :: nat
  e_dayOfWeek :: nat
  e_noise :: real
  e_bpm :: real
  e_rrInterval :: real
  e_state :: study_state
  e_isFlowState :: bool

definition cleanEntry :: "feed \<Rightarrow> entry" where
  "cleanEntry f =
     (let timestamp = created_at f;
          noise = or_zero (field2 f);
          rrInterval = or_zero (field3 f);
          bpmAvg = or_zero (field5 f);
          bpmRealtime = or_zero (field6 f);
          bpm = (if bpmAvg > 0 then bpmAvg else bpmRealtime);
          state = classifyStateForPrediction noise (real_of_int bpm) rrInterval
      in \<lparr>e_timestamp = timestamp, e_hour = getHours timestamp,
          e_dayOfWeek = getDay timestamp, e_noise = noise, e_bpm = real_of_int bpm,
          e_rrInterval = rrInterval, e_state = state,
          e_isFlowState = (state = FlowState)\<rparr>)"

definition cleanData :: "feed list \<Rightarrow> entry list" where
  "cleanData feeds =
     filter (\<lambda>d. e_bpm d \<ge> BPM_MIN_VALID \<and> e_bpm d \<le> BPM_MAX_VALID) (map cleanEntry feeds)"

text \<open>
  The response is \<open>None\<close> when the request fails, is not ok or carries no \<^verbatim>\<open>feeds\<close>;
  the function then returns \<^verbatim>\<open>null\<close>, as it does for an empty list of feeds.
\<close>

definition fetchPredictionHistoricalData :: "feed list option \<Rightarrow> entry list option" where
  "fetchPredictionHistoricalData response =
     (case response of
        None \<Rightarrow> None
      | Some feeds \<Rightarrow> if length feeds = 0 then None else Some (cleanData feeds))"

subsection \<open>Pattern analysis\<close>

text \<open>
  One value of \<^verbatim>\<open>hourlyPatterns\<close> (fields prefixed with \<open>p_\<close>). The key
  \<^verbatim>\<open>`${day}-${hour}`\<close> is the pair of the two numbers. A sample is its timestamp and
  its state. The statistics fields exist only after the second pass; they start at zero
  here.
\<close>

record pattern =
  p_day :: nat
  p_hour :: nat
  p_flowStateCount :: nat
  p_totalCount :: nat
  p_noiseSum :: real
  p_bpmSum :: real
  p_rrIntervalSum :: real
  p_samples :: "(int \<times> study_state) list"
  p_avgNoise :: real
  p_avgBPM :: real
  p_avgRRInterval :: real
  p_probability :: real
  p_consistency :: real

type_synonym patterns = "nat \<times> nat \<rightharpoonup> pattern"

definition newPattern :: "nat \<Rightarrow> nat \<Rightarrow> pattern" where
  "newPattern day hour =
     \<lparr>p_day = day, p_hour = hour, p_flowStateCount = 0, p_totalCount = 0, p_noiseSum = 0,
      p_bpmSum = 0, p_rrIntervalSum = 0, p_samples = [], p_avgNoise = 0, p_avgBPM = 0,
      p_avgRRInterval = 0, p_probability = 0, p_consistency = 0\<rparr>"

definition initPatterns :: patterns where
  "initPatterns =
     fold (\<lambda>day m. fold (\<lambda>hour m. m((day, hour) \<mapsto> newPattern day hour)) [0..<24] m)
       [0..<7] Map.empty"

text \<open>The updates of one cell for one row, and the body of the \<^verbatim>\<open>forEach\<close> callback.\<close>

definition addToPattern :: "entry \<Rightarrow> pattern \<Rightarrow> pattern" where
  "addToPattern e p =
     p\<lparr>p_totalCount := p_totalCount p + 1,
       p_noiseSum := p_noiseSum p + e_noise e,
       p_bpmSum := p_bpmSum p + e_bpm e,
       p_rrIntervalSum := p_rrIntervalSum p + e_rrInterval e,
       p_flowStateCount :=
         (if e_isFlowState e then p_flowStateCount p + 1 else p_flowStateCount p),
       p_samples := p_samples p @ [(e_timestamp e, e_state e)]\<rparr>"

definition addEntry :: "entry \<Rightarrow> patterns \<Rightarrow> patterns" where
  "addEntry e hourlyPatterns =
     (let key = (e_dayOfWeek e, e_hour e)
      in case hourlyPatterns key of
           None \<Rightarrow> hourlyPatterns
         | Some p \<Rightarrow> hourlyPatterns(key \<mapsto> addToPattern e p))"

definition sampleVariance :: "real \<Rightarrow> (int \<times> study_state) list \<Rightarrow> nat \<Rightarrow> real" where
  "sampleVariance probability samples totalCount =
     foldl (\<lambda>sum sample.
              let isFlow = (if snd sample = FlowState then 1 else 0)
              in sum + (isFlow - probability) ^ 2) 0 samples
       / real totalCount"

definition finishPattern :: "pattern \<Rightarrow> pattern" where
  "finishPattern p =
     (if p_totalCount p > 0 then
        let probability = real (p_flowStateCount p) / real (p_totalCount p);
            variance = sampleVariance probability (p_samples p) (p_totalCount p)
        in p\<lparr>p_avgNoise := p_noiseSum p / real (p_totalCount p),
             p_avgBPM := p_bpmSum p / real (p_totalCount p),
             p_avgRRInterval := p_rrIntervalSum p / real (p_totalCount p),
             p_probability := probability,
             p_consistency := 1 - sqrt variance\<rparr>
      else p\<lparr>p_avgNoise := 0, p_avgBPM := 0, p_avgRRInterval := 0, p_probability := 0,
             p_consistency := 0\<rparr>)"

definition analyzeTemporalPatterns :: "entry list \<Rightarrow> patterns" where
  "analyzeTemporalPatterns data =
     (let hourlyPatterns = fold addEntry data initPatterns
      in (\<lambda>key. map_option finishPattern (hourlyPatterns key)))"

subsection \<open>Prediction generation\<close>

text \<open>\<^verbatim>\<open>Math.round\<close>: the nearest integer, a tie going up.\<close>

definition Math_round :: "real \<Rightarrow> int" where
  "Math_round x = \<lfloor>x + 1 / 2\<rfloor>"

definition calculatePredictionConfidence :: "pattern \<Rightarrow> int" where
  "calculatePredictionConfidence p =
     (let MIN_SAMPLES_FOR_CONFIDENCE = 10;
          IDEAL_SAMPLES = 50;
          sampleFactor = min (real (p_totalCount p) / IDEAL_SAMPLES) 1;
          consistencyFactor = p_consistency p;
          probabilityFactor = p_probability p
      in if p_totalCount p < MIN_SAMPLES_FOR_CONFIDENCE then 0
         else Math_round
                ((sampleFactor * (4 / 10) + consistencyFactor * (3 / 10)
                  + probabilityFactor * (3 / 10)) * 100))"

text \<open>One element of \<^verbatim>\<open>predictions\<close> (fields prefixed with \<open>q_\<close>).\<close>

record prediction =
  q_time :: int
  q_hour :: nat
  q_dayOfWeek :: nat
  q_probability :: real
  q_confidence :: int
  q_expectedNoise :: real
  q_expectedBPM :: real
  q_expectedRRInterval :: real
  q_sampleSize :: nat
  q_consistency :: real
  q_hoursFromNow :: nat

text \<open>
  The body of the loop over the next hours: the prediction it pushes for hour \<open>i\<close>, if
  any.
\<close>

definition candidate :: "int \<Rightarrow> patterns \<Rightarrow> nat \<Rightarrow> prediction option" where
  "candidate now pats i =
     (let futureTime = now + int i * 60 * 60 * 1000;
          futureDay = getDay futureTime;
          futureHour = getHours futureTime
      in case pats (futureDay, futureHour) of
           None \<Rightarrow> None
         | Some p \<Rightarrow>
             if p_probability p \<ge> FLOW_STATE_THRESHOLD then
               Some \<lparr>q_time = futureTime, q_hour = futureHour, q_dayOfWeek = futureDay,
                     q_probability = p_probability p,
                     q_confidence = calculatePredictionConfidence p,
                     q_expectedNoise = p_avgNoise p, q_expectedBPM = p_avgBPM p,
                     q_expectedRRInterval = p_avgRRInterval p,
                     q_sampleSize = p_totalCount p, q_consistency = p_consistency p,
                     q_hoursFromNow = i\<rparr>
             else None)"

definition candidates :: "int \<Rightarrow> patterns \<Rightarrow> prediction list" where
  "candidates now pats =
     fold (\<lambda>i predictions.
             case candidate now pats i of
               None \<Rightarrow> predictions
             | Some q \<Rightarrow> predictions @ [q])
       [1..<PREDICTION_WINDOW + 1] []"

text \<open>
  The order of the predictions hangs on whether two scores are equal, so the score is
  computed as the program computes it, in IEEE 754 doubles: the quotient, the product and
  the difference are each the exact result rounded to the nearest number with a 53-bit
  mantissa, a tie going to the even mantissa. The scores are zero or lie between 0.003
  and 1, far from overflow and underflow, and the exponent is not bounded here.

  The field \<^verbatim>\<open>probability\<close> of the program is the double nearest to the quotient of the
  two counts, where the record of this model holds the quotient itself; so the score
  rounds the probability before it multiplies. Rounding leaves a double as it is
  (\<open>fl (fl x) = fl x\<close>, shown below), so nothing is rounded twice.
\<close>

definition pow2 :: "int \<Rightarrow> real" where
  "pow2 k = (if 0 \<le> k then 2 ^ nat k else 1 / 2 ^ nat (- k))"

text \<open>The binary exponent of a number other than zero: \<open>pow2 e \<le> \<bar>x\<bar> < pow2 (e + 1)\<close>.\<close>

definition exponent :: "real \<Rightarrow> int" where
  "exponent x =
     (if 1 \<le> \<bar>x\<bar> then int (floorlog 2 (nat \<lfloor>\<bar>x\<bar>\<rfloor>)) - 1
      else - int (floorlog 2 (nat (\<lceil>1 / \<bar>x\<bar>\<rceil> - 1))))"

definition roundEven :: "real \<Rightarrow> int" where
  "roundEven x =
     (let n = \<lfloor>x\<rfloor>; r = x - of_int n
      in if r < 1 / 2 then n else if r > 1 / 2 then n + 1 else if even n then n else n + 1)"

text \<open>Rounding to the nearest double.\<close>

definition fl :: "real \<Rightarrow> real" where
  "fl x =
     (if x = 0 then 0
      else let ulp = pow2 (exponent x - 52)
           in sgn x * (of_int (roundEven (\<bar>x\<bar> / ulp)) * ulp))"

definition score :: "prediction \<Rightarrow> real" where
  "score q = fl (fl (q_probability q) * fl (real_of_int (q_confidence q) / 100))"

text \<open>The comparator handed to \<^verbatim>\<open>sort\<close>.\<close>

definition compareScore :: "prediction \<Rightarrow> prediction \<Rightarrow> real" where
  "compareScore a b = (let scoreA = score a; scoreB = score b in fl (scoreB - scoreA))"

text \<open>
  \<^verbatim>\<open>Array.prototype.sort\<close> is a stable sort by the comparator: \<open>a\<close> stays before \<open>b\<close>
  unless the comparator is positive on them. It is modelled as the insertion sort that
  takes the elements from the back and puts each before the first element it need not
  follow.
\<close>

fun insert_by :: "('a \<Rightarrow> 'a \<Rightarrow> real) \<Rightarrow> 'a \<Rightarrow> 'a list \<Rightarrow> 'a list" where
  "insert_by cmp x [] = [x]"
| "insert_by cmp x (y # ys) =
     (if cmp x y \<le> 0 then x # y # ys else y # insert_by cmp x ys)"

definition sort_by :: "('a \<Rightarrow> 'a \<Rightarrow> real) \<Rightarrow> 'a list \<Rightarrow> 'a list" where
  "sort_by cmp xs = foldr (insert_by cmp) xs []"

definition generateFlowStatePredictions :: "int \<Rightarrow> patterns \<Rightarrow> prediction list" where
  "generateFlowStatePredictions now pats =
     take TOP_PREDICTIONS (sort_by compareScore (candidates now pats))"

definition calculateOverallConfidence :: "prediction list \<Rightarrow> nat \<Rightarrow> int" where
  "calculateOverallConfidence predictions dataPoints =
     (if length predictions = 0 then 0
      else
        let avgConfidence =
              foldl (\<lambda>sum q. sum + real_of_int (q_confidence q)) 0 predictions
                / real (length predictions);
            dataFactor = min (real dataPoints / 500) 1
        in Math_round (avgConfidence * (7 / 10) + dataFactor * 30))"

datatype quality = Insufficient | Low | Moderate | Good | Excellent

definition assessDataQuality :: "nat \<Rightarrow> quality" where
  "assessDataQuality dataPoints =
     (if dataPoints < 100 then Insufficient
      else if dataPoints < 300 then Low
      else if dataPoints < 800 then Moderate
      else if dataPoints < 1500 then Good
      else Excellent)"

subsection \<open>The forecast run\<close>

text \<open>The global \<^verbatim>\<open>predictionData\<close> and its initial value.\<close>

record predictionData =
  predictions :: "prediction list"
  lastUpdate :: "int option"
  confidence :: int
  dataQuality :: quality

definition initialPredictionData :: predictionData where
  "initialPredictionData =
     \<lparr>predictions = [], lastUpdate = None, confidence = 0, dataQuality = Insufficient\<rparr>"

text \<open>What a run puts on the page: one of the three \<^verbatim>\<open>updatePredictionUI\<close> functions.\<close>

datatype ui_update =
  UINoData nat
  | UIPredictions "prediction list" int
  | UIError

text \<open>
  A run takes the time, the response of the store and the global; it gives the value it
  returns (\<open>None\<close> is \<^verbatim>\<open>null\<close>), the global afterwards and the update of the page. The
  \<^verbatim>\<open>catch\<close> branch is not modelled: no function of the model throws.
\<close>

definition runPredictionAnalysis ::
  "int \<Rightarrow> feed list option \<Rightarrow> predictionData
     \<Rightarrow> prediction list option \<times> predictionData \<times> ui_update" where
  "runPredictionAnalysis now response pd =
     (case fetchPredictionHistoricalData response of
        None \<Rightarrow> (None, pd, UINoData 0)
      | Some historicalData \<Rightarrow>
          if length historicalData < MIN_DATA_POINTS then
            (None, pd, UINoData (length historicalData))
          else
            let pats = analyzeTemporalPatterns historicalData;
                preds = generateFlowStatePredictions now pats;
                overallConfidence = calculateOverallConfidence preds (length historicalData)
            in (Some preds,
                pd\<lparr>predictions := preds, lastUpdate := Some now,
                   confidence := overallConfidence,
                   dataQuality := assessDataQuality (length historicalData)\<rparr>,
                UIPredictions preds overallConfidence))"

subsection \<open>The specification's statistics\<close>

text \<open>
  The flow-state indicator of a sample and the population variance of a list of numbers
  around a centre, in the words of the specification.
\<close>

definition spec_indicator :: "int \<times> study_state \<Rightarrow> real" where
  "spec_indicator sample = (if snd sample = FlowState then 1 else 0)"

definition spec_population_variance :: "real \<Rightarrow> real list \<Rightarrow> real" where
  "spec_population_variance mu xs = (\<Sum>x\<leftarrow>xs. (x - mu) ^ 2) / real (length xs)"

text \<open>The BPM of a historical row, in the words of the specification.\<close>

definition spec_bpm :: "feed \<Rightarrow> int" where
  "spec_bpm f = (if or_zero (field5 f) > 0 then or_zero (field5 f) else or_zero (field6 f))"

subsection \<open>Sample rows\<close>

text \<open>
  Rows of the first of January 1970, a Thursday: a quiet row with a heart rate of 72 and
  a loud one with a heart rate of 100 in the first hour, a quiet row with a heart rate of
  72 in the second hour, and a row without a usable heart rate.
\<close>

definition quietRow :: feed where
  "quietRow = \<lparr>created_at = 0, field2 = Some 40, field3 = Some 650, field5 = Some 72,
               field6 = Some 75\<rparr>"

definition loudRow :: feed where
  "loudRow = \<lparr>created_at = 60000, field2 = Some 70, field3 = Some 30, field5 = None,
              field6 = Some 100\<rparr>"

definition laterRow :: feed where
  "laterRow = \<lparr>created_at = 3600000, field2 = Some 40, field3 = Some 650, field5 = Some 72,
               field6 = Some 75\<rparr>"

definition noPulseRow :: feed where
  "noPulseRow = \<lparr>created_at = 120000, field2 = Some 40, field3 = None, field5 = Some 0,
                 field6 = None\<rparr>"

text \<open>A history of 101 rows, 100 of them with a valid heart rate.\<close>

definition sampleRows :: "feed list" where
  "sampleRows = replicate 98 laterRow @ [quietRow, loudRow, noPulseRow]"

text \<open>The number of valid historical samples of a response, in the words of the specification.\<close>

definition spec_validCount :: "feed list option \<Rightarrow> nat" where
  "spec_validCount response =
     (case response of
        None \<Rightarrow> 0
      | Some feeds \<Rightarrow> length (filter (\<lambda>f. 40 \<le> spec_bpm f \<and> spec_bpm f \<le> 200) feeds))"

text \<open>
  The two predictions that history gives at 23:00 on the day before: one for the first
  hour (two samples) and one for the second hour (98 samples).
\<close>

definition firstPrediction :: prediction where
  "firstPrediction =
     \<lparr>q_time = 0, q_hour = 0, q_dayOfWeek = 4, q_probability = 1 / 2, q_confidence = 0,
      q_expectedNoise = 55, q_expectedBPM = 86, q_expectedRRInterval = 340,
      q_sampleSize = 2, q_consistency = 1 / 2, q_hoursFromNow = 1\<rparr>"

definition secondPrediction :: prediction where
  "secondPrediction =
     \<lparr>q_time = 3600000, q_hour = 1, q_dayOfWeek = 4, q_probability = 1, q_confidence = 100,
      q_expectedNoise = 40, q_expectedBPM = 72, q_expectedRRInterval = 650,
      q_sampleSize = 98, q_consistency = 1, q_hoursFromNow = 2\<rparr>"




section \<open>Sensing node: heartbeat detection\<close>

text \<open>
  The globals of the firmware and the \<^verbatim>\<open>static\<close> locals of \<^verbatim>\<open>detectHeartBeat_Adaptive\<close>
  (\<open>lastValue\<close>, \<open>inPulse\<close>, \<open>pulseStartTime\<close>, \<open>peakValue\<close>) form one record. The
  optical values are \<^verbatim>\<open>long\<close>; they are 18-bit sensor readings, a window of 30 sums
  below \<open>2^23\<close>, and they are modelled as integers with the truncating division of C
  (\<open>sdiv\<close>). The clock \<^verbatim>\<open>millis()\<close>, \<open>lastBeat\<close> and the intervals are 32-bit words:
  \<open>lastBeat\<close> is a signed \<^verbatim>\<open>long\<close>, read with \<open>sint\<close>, the others are unsigned.
  Counters and array indices are natural numbers, \<^verbatim>\<open>float\<close> values are real numbers.
\<close>

definition RATE_SIZE :: nat where "RATE_SIZE = 4"
definition IR_THRESHOLD :: int where "IR_THRESHOLD = 50000"
definition IR_WINDOW_SIZE :: nat where "IR_WINDOW_SIZE = 30"
definition RR_INTERVAL_SIZE :: nat where "RR_INTERVAL_SIZE = 15"

record node =
  rates :: "8 word list"
  rateSpot :: nat
  lastBeat :: "32 word"
  irValue :: int
  beatsPerMinute :: int
  beatAvg :: int
  fingerDetected :: bool
  beatDetected :: bool
  beatCount :: nat
  irWindow :: "int list"
  irWindowIndex :: nat
  irWindowFull :: bool
  irBaseline :: int
  irAmplitude :: int
  stableReadings :: nat
  irDC :: int
  irAC :: int
  irMax :: int
  irMin :: int
  rrIntervals :: "32 word list"
  rrIndex :: nat
  hrv_SDNN :: real
  hrv_RMSSD :: real
  hrvSampleCount :: nat
  max30102OK :: bool
  lastValue :: int
  inPulse :: bool
  pulseStartTime :: "32 word"
  peakValue :: int

text \<open>The state after \<^verbatim>\<open>setup\<close>, with the sensor found or not.\<close>

definition initialNode :: "bool \<Rightarrow> node" where
  "initialNode sensorOK =
     \<lparr>rates = replicate RATE_SIZE 0, rateSpot = 0, lastBeat = 0, irValue = 0,
      beatsPerMinute = 0, beatAvg = 0, fingerDetected = False, beatDetected = False,
      beatCount = 0, irWindow = replicate IR_WINDOW_SIZE 0, irWindowIndex = 0,
      irWindowFull = False, irBaseline = 0, irAmplitude = 0, stableReadings = 0, irDC = 0,
      irAC = 0, irMax = 0, irMin = 999999, rrIntervals = replicate RR_INTERVAL_SIZE 0,
      rrIndex = 0, hrv_SDNN = 0, hrv_RMSSD = 0, hrvSampleCount = 0, max30102OK = sensorOK,
      lastValue = 0, inPulse = False, pulseStartTime = 0, peakValue = 0\<rparr>"

subsection \<open>Heart-rate variability\<close>

definition calculateHRV :: "node \<Rightarrow> node" where
  "calculateHRV s =
     (if hrvSampleCount s < 5 then s\<lparr>hrv_SDNN := 0, hrv_RMSSD := 0\<rparr>
      else
        let n = hrvSampleCount s;
            rr = rrIntervals s;
            mean = fold (\<lambda>i mean. mean + real (unat (rr ! i))) [0..<n] 0 / real n;
            variance =
              fold (\<lambda>i variance.
                      let diff = real (unat (rr ! i)) - mean
                      in variance + diff * diff) [0..<n] 0 / real n;
            s1 = s\<lparr>hrv_SDNN := sqrt variance\<rparr>;
            (sumSquaredDiff, diffCount) =
              fold (\<lambda>i (sumSquaredDiff, diffCount).
                      let diff = rr ! i - rr ! (i - 1)
                      in (sumSquaredDiff + real_of_int (sint (diff * diff)),
                          diffCount + 1)) [1..<n] (0, 0 :: nat)
        in if diffCount > 0 then s1\<lparr>hrv_RMSSD := sqrt (sumSquaredDiff / real diffCount)\<rparr>
           else s1\<lparr>hrv_RMSSD := 0\<rparr>)"

subsection \<open>Baseline and amplitude of the window\<close>

definition calculateACDC :: "node \<Rightarrow> node" where
  "calculateACDC s =
     (let w = irWindow s;
          (sum, mx, mn) =
            fold (\<lambda>i (sum, mx, mn).
                    (sum + w ! i,
                     if w ! i > mx then w ! i else mx,
                     if w ! i < mn then w ! i else mn))
              [0..<IR_WINDOW_SIZE] (0, w ! 0, w ! 0);
          s1 = s\<lparr>irMax := mx, irMin := mn\<rparr>;
          s2 = s1\<lparr>irBaseline := sum sdiv int IR_WINDOW_SIZE\<rparr>;
          s3 = s2\<lparr>irDC := irBaseline s2\<rparr>;
          s4 = s3\<lparr>irAmplitude := irMax s3 - irMin s3\<rparr>
      in s4\<lparr>irAC := irAmplitude s4 sdiv 2\<rparr>)"

subsection \<open>Beat detection\<close>

text \<open>The local \<^verbatim>\<open>threshold\<close> of \<^verbatim>\<open>detectHeartBeat_Adaptive\<close>.\<close>

definition threshold :: "node \<Rightarrow> int" where
  "threshold s = irBaseline s + (irAC s * 3 sdiv 10)"

text \<open>
  The body of \<^verbatim>\<open>if (beatsPerMinute >= 45 && beatsPerMinute <= 150)\<close>: the beat enters the
  rate buffer and the interval buffer, and the average and the variability are computed
  again.
\<close>

definition admitBeat :: "32 word \<Rightarrow> node \<Rightarrow> node" where
  "admitBeat delta s =
     (let s1 = s\<lparr>rates := (rates s)[rateSpot s := word_of_int (beatsPerMinute s)]\<rparr>;
          s2 = s1\<lparr>rrIntervals := (rrIntervals s1)[rrIndex s1 := delta]\<rparr>;
          s3 = s2\<lparr>rrIndex := (rrIndex s2 + 1) mod RR_INTERVAL_SIZE\<rparr>;
          s4 = (if rrIndex s3 = 0 then s3\<lparr>hrvSampleCount := RR_INTERVAL_SIZE\<rparr>
                else if hrvSampleCount s3 < RR_INTERVAL_SIZE
                then s3\<lparr>hrvSampleCount := hrvSampleCount s3 + 1\<rparr>
                else s3);
          s5 = s4\<lparr>rateSpot := (rateSpot s4 + 1) mod RATE_SIZE\<rparr>;
          (total, validCount) =
            fold (\<lambda>x (total, validCount).
                    if rates s5 ! x > 0 then (total + uint (rates s5 ! x), validCount + 1)
                    else (total, validCount))
              [0..<RATE_SIZE] (0, 0 :: nat);
          s6 = s5\<lparr>beatAvg := (if validCount > 0 then total sdiv int validCount else total)\<rparr>;
          s7 = calculateHRV s6
      in s7\<lparr>beatDetected := True\<rparr>)"

text \<open>
  The body of \<^verbatim>\<open>if (irValue < threshold)\<close>, the falling edge, at the time \<open>now\<close> that
  \<^verbatim>\<open>millis()\<close> returns. The quotient \<^verbatim>\<open>60000 / delta\<close> is an unsigned division, stored in an
  \<^verbatim>\<open>int\<close>.
\<close>

definition fallingEdge :: "32 word \<Rightarrow> node \<Rightarrow> node" where
  "fallingEdge now s =
     (let s1 = s\<lparr>inPulse := False\<rparr>;
          currentTime = now;
          delta = currentTime - lastBeat s1;
          s2 = (if sint (lastBeat s1) > 0 \<and> delta > 400 \<and> delta < 3000 then
                  let s3 = s1\<lparr>beatsPerMinute := sint (60000 div delta)\<rparr>;
                      s4 = s3\<lparr>beatCount := beatCount s3 + 1\<rparr>
                  in if beatsPerMinute s4 \<ge> 45 \<and> beatsPerMinute s4 \<le> 150
                     then admitBeat delta s4 else s4
                else s1)
      in s2\<lparr>lastBeat := currentTime\<rparr>)"

text \<open>
  One call of the detector. The clock is read at the rising edge and at the falling edge;
  a sample cannot be both above and below the threshold, so one call reads it at most
  once, and \<open>now\<close> stands for that reading.
\<close>

definition detectHeartBeat_Adaptive :: "32 word \<Rightarrow> node \<Rightarrow> node" where
  "detectHeartBeat_Adaptive now s =
     (if irAC s < 30 then s\<lparr>stableReadings := 0\<rparr>
      else
        let th = threshold s;
            s1 = (if \<not> inPulse s \<and> irValue s > th \<and> lastValue s \<le> th then
                    s\<lparr>inPulse := True, pulseStartTime := now, peakValue := irValue s,
                      stableReadings := stableReadings s + 1\<rparr>
                  else s);
            s2 = (if inPulse s1 then
                    let s3 = (if irValue s1 > peakValue s1 then s1\<lparr>peakValue := irValue s1\<rparr>
                              else s1)
                    in if irValue s3 < th then fallingEdge now s3 else s3
                  else s1)
        in s2\<lparr>lastValue := irValue s2\<rparr>)"

subsection \<open>Reading the sensor\<close>

text \<open>The current value enters the sliding window.\<close>

definition windowInsert :: "node \<Rightarrow> node" where
  "windowInsert s =
     (let s1 = s\<lparr>irWindow := (irWindow s)[irWindowIndex s := irValue s]\<rparr>;
          s2 = s1\<lparr>irWindowIndex := irWindowIndex s1 + 1\<rparr>
      in if irWindowIndex s2 \<ge> IR_WINDOW_SIZE
         then s2\<lparr>irWindowIndex := 0, irWindowFull := True\<rparr> else s2)"

text \<open>One acquisition tick: \<open>ir\<close> is what \<^verbatim>\<open>heartSensor.getIR()\<close> returns.\<close>

definition readHeartSensor_UltraSensitive :: "int \<Rightarrow> 32 word \<Rightarrow> node \<Rightarrow> node" where
  "readHeartSensor_UltraSensitive ir now s =
     (if \<not> max30102OK s then
        s\<lparr>irValue := 0, fingerDetected := False, beatsPerMinute := 0, beatAvg := 0\<rparr>
      else
        let s1 = s\<lparr>irValue := ir\<rparr>;
            s2 = s1\<lparr>fingerDetected := (irValue s1 > IR_THRESHOLD)\<rparr>
        in if \<not> fingerDetected s2 then
             s2\<lparr>beatsPerMinute := 0, beatAvg := 0, beatCount := 0, irBaseline := 0,
                stableReadings := 0, irWindowFull := False, irWindowIndex := 0\<rparr>
           else
             let s3 = windowInsert s2
             in if irWindowFull s3 then detectHeartBeat_Adaptive now (calculateACDC s3)
                else s3)"

subsection \<open>The specification's threshold\<close>

text \<open>
  The threshold in the words of the specification: the mean of the window plus the
  rounded 0.3 of half the window's max-minus-min.
\<close>

definition spec_threshold :: "int list \<Rightarrow> real" where
  "spec_threshold w =
     real_of_int (sum_list w) / real (length w)
       + real_of_int (round ((real_of_int (Max (set w) - Min (set w)) / 2) * 0.3))"

subsection \<open>Sample states of the node\<close>

text \<open>
  A full window that swings by 36 around 100000, with the sample at the write position
  equal to the coming reading; and a state inside a pulse whose last beat was at 1000 ms.
\<close>

definition swingingNode :: node where
  "swingingNode =
     (initialNode True)\<lparr>irWindow := replicate 15 100036 @ replicate 15 99964,
       irWindowFull := True\<rparr>"

definition pulseNode :: node where
  "pulseNode =
     (initialNode True)\<lparr>irValue := 99000, irBaseline := 100000, irAC := 100, inPulse := True,
       peakValue := 100500, lastValue := 100200, lastBeat := 1000\<rparr>"

section \<open>Properties of the classifier\<close>

lemmas thresholds =
  NOISE_THRESHOLD_def BPM_LOW_def BPM_HIGH_def HRV_THRESHOLD_def
  BPM_MIN_VALID_def BPM_MAX_VALID_def


text \<open>
  C2: for every input with bpm below 40 or above 200 the classifier returns Standby,
  whatever the noise level and the RR interval are; for every other input it returns
  the four-quadrant result, with isQuiet = noiseDb < 55.0 and
  isGoodPhysio = (rrIntervalMs > 700) or (60 <= bpm <= 80).
\<close>

theorem classify_four_quadrant:
  "(bpm < 40 \<or> bpm > 200 \<longrightarrow> classifyStateForPrediction noise bpm rr = Standby) \<and>
   (\<not> (bpm < 40 \<or> bpm > 200) \<longrightarrow>
      classifyStateForPrediction noise bpm rr =
        spec_quadrant (spec_isQuiet noise) (spec_isGoodPhysio bpm rr))"
proof (cases "bpm < 40 \<or> bpm > 200")
  case True
  then show ?thesis
    by (simp add: classifyStateForPrediction_def thresholds)
next
  case False
  then have "classifyStateForPrediction noise bpm rr =
      spec_quadrant (spec_isQuiet noise) (spec_isGoodPhysio bpm rr)"
    by (cases "noise < 55"; cases "rr > 700 \<or> (60 \<le> bpm \<and> bpm \<le> 80)")
       (auto simp add: classifyStateForPrediction_def thresholds Let_def
          spec_isQuiet_def spec_isGoodPhysio_def)
  with False show ?thesis by blast
qed

theorem classify_four_quadrant_witness:
  "((30::real) < 40 \<or> (30::real) > 200) \<and>
   classifyStateForPrediction 50 30 800 = Standby \<and>
   \<not> ((72::real) < 40 \<or> (72::real) > 200) \<and>
   classifyStateForPrediction 50 72 650 = FlowState \<and>
   classifyStateForPrediction 60 72 650 = NormalLearning \<and>
   classifyStateForPrediction 50 90 650 = Standby \<and>
   classifyStateForPrediction 60 90 650 = Distracted"
  using classify_four_quadrant [of 30 50 800] classify_four_quadrant [of 72 50 650]
    classify_four_quadrant [of 72 60 650] classify_four_quadrant [of 90 50 650]
    classify_four_quadrant [of 90 60 650]
  by (simp add: spec_isQuiet_def spec_isGoodPhysio_def)

section \<open>Aggregation into cells\<close>

lemma fold_cell:
  "fold (\<lambda>hour m. m((day, hour) \<mapsto> newPattern day hour)) [0..<n] m =
   (\<lambda>k. if fst k = day \<and> snd k < n then Some (newPattern day (snd k)) else m k)"
  by (induction n) (auto simp: fun_eq_iff less_Suc_eq)

lemma fold_day:
  "fold (\<lambda>day m k. if fst k = day \<and> snd k < (24::nat) then Some (newPattern day (snd k)) else m k)
     [0..<d] Map.empty =
   (\<lambda>k. if fst k < d \<and> snd k < 24 then Some (newPattern (fst k) (snd k)) else None)"
  by (induction d) (auto simp: fun_eq_iff less_Suc_eq)

lemma initPatterns_apply:
  "initPatterns k = (if fst k < 7 \<and> snd k < 24 then Some (newPattern (fst k) (snd k)) else None)"
  unfolding initPatterns_def fold_cell fold_day by (rule refl)

lemma addEntry_apply:
  "addEntry e m key =
   (if (e_dayOfWeek e, e_hour e) = key then map_option (addToPattern e) (m key) else m key)"
  by (cases "m (e_dayOfWeek e, e_hour e)") (auto simp: addEntry_def Let_def)

lemma fold_addEntry_apply:
  "fold addEntry data m key =
   map_option (fold addToPattern (filter (\<lambda>e. (e_dayOfWeek e, e_hour e) = key) data)) (m key)"
proof (induction data arbitrary: m)
  case Nil
  show ?case by (simp add: option.map_ident)
next
  case (Cons e data)
  have "fold addEntry (e # data) m key = fold addEntry data (addEntry e m) key"
    by simp
  also have "\<dots> = map_option (fold addToPattern (filter (\<lambda>e. (e_dayOfWeek e, e_hour e) = key) data))
       (addEntry e m key)"
    by (rule Cons)
  also have "\<dots> = map_option (fold addToPattern (filter (\<lambda>e. (e_dayOfWeek e, e_hour e) = key) (e # data))) (m key)"
    by (simp add: addEntry_apply option.map_comp comp_def)
  finally show ?case .
qed

lemma analyze_apply:
  "analyzeTemporalPatterns data key =
   (if fst key < 7 \<and> snd key < 24 then
      Some (finishPattern (fold addToPattern (filter (\<lambda>e. (e_dayOfWeek e, e_hour e) = key) data)
              (newPattern (fst key) (snd key))))
    else None)"
  by (simp add: analyzeTemporalPatterns_def fold_addEntry_apply initPatterns_apply)


lemma fold_addToPattern_samples:
  "p_samples (fold addToPattern es p) = p_samples p @ map (\<lambda>e. (e_timestamp e, e_state e)) es"
  by (induction es arbitrary: p) (simp_all add: addToPattern_def)

lemma fold_addToPattern_total:
  "p_totalCount (fold addToPattern es p) = p_totalCount p + length es"
  by (induction es arbitrary: p) (simp_all add: addToPattern_def)

lemma fold_addToPattern_flow:
  "p_flowStateCount (fold addToPattern es p) = p_flowStateCount p + length (filter e_isFlowState es)"
  by (induction es arbitrary: p) (simp_all add: addToPattern_def)

lemma foldl_squares:
  "foldl (\<lambda>sum sample. sum + ((if snd sample = FlowState then 1 else 0) - q) ^ 2) a xs =
   a + (\<Sum>x\<leftarrow>xs. (spec_indicator x - q) ^ 2)"
  by (induction xs arbitrary: a) (simp_all add: spec_indicator_def)

lemma sampleVariance_spec:
  "sampleVariance q xs (length xs) = spec_population_variance q (map spec_indicator xs)"
  by (simp add: sampleVariance_def spec_population_variance_def foldl_squares comp_def Let_def)

lemma sum_indicator:
  "(\<Sum>x\<leftarrow>xs. spec_indicator x) = real (length (filter (\<lambda>s. snd s = FlowState) xs))"
  by (induction xs) (simp_all add: spec_indicator_def)

lemma sum_squares_bernoulli:
  "(\<Sum>x\<leftarrow>xs. (spec_indicator x - q) ^ 2) =
   real (length (filter (\<lambda>s. snd s = FlowState) xs)) * (1 - q) ^ 2
   + (real (length xs) - real (length (filter (\<lambda>s. snd s = FlowState) xs))) * q ^ 2"
  by (induction xs) (simp_all add: spec_indicator_def algebra_simps)

lemma bernoulli_variance:
  fixes k n :: real
  assumes "0 < n"
  shows "(k * (1 - k / n) ^ 2 + (n - k) * (k / n) ^ 2) / n = (k / n) * (1 - k / n)"
  using assms by (simp add: field_simps power2_eq_square)

lemma bernoulli_bound:
  fixes q :: real
  shows "q * (1 - q) \<le> 1 / 4"
  using zero_le_power2 [of "q - 1 / 2"] by (simp add: power2_eq_square algebra_simps)

lemma variance_bounds:
  assumes "xs \<noteq> []"
  defines "q \<equiv> real (length (filter (\<lambda>s. snd s = FlowState) xs)) / real (length xs)"
  shows "0 \<le> spec_population_variance q (map spec_indicator xs)"
    and "spec_population_variance q (map spec_indicator xs) \<le> 1 / 4"
proof -
  have n: "0 < real (length xs)" using assms(1) by simp
  have eq: "spec_population_variance q (map spec_indicator xs) = q * (1 - q)"
    unfolding spec_population_variance_def
    using bernoulli_variance [OF n, of "real (length (filter (\<lambda>s. snd s = FlowState) xs))"]
    by (simp add: comp_def sum_squares_bernoulli q_def)
  show "spec_population_variance q (map spec_indicator xs) \<le> 1 / 4"
    unfolding eq by (rule bernoulli_bound)
  show "0 \<le> spec_population_variance q (map spec_indicator xs)"
    unfolding spec_population_variance_def
    by (intro divide_nonneg_nonneg sum_list_nonneg) auto
qed

section \<open>Consistency of a cell\<close>

lemma cleanEntry_isFlowState: "e_isFlowState (cleanEntry f) = (e_state (cleanEntry f) = FlowState)"
  by (simp add: cleanEntry_def Let_def)

lemma cleanData_isFlowState:
  "\<forall>e\<in>set (cleanData feeds). e_isFlowState e = (e_state e = FlowState)"
  by (auto simp: cleanData_def cleanEntry_isFlowState)

lemma sqrt_quarter: "sqrt (1 / 4) = 1 / 2"
  by (simp add: real_sqrt_divide)

lemmas cell_eval =
  analyze_apply finishPattern_def sampleVariance_def addToPattern_def newPattern_def
  cleanData_def cleanEntry_def classifyStateForPrediction_def thresholds or_zero_def
  getDay_def getHours_def Let_def quietRow_def loudRow_def laterRow_def noPulseRow_def

text \<open>
  C9: for every cell with at least one sample, consistency is 1 minus the square root of
  the population variance of the flow-state indicator (1 if the sample's state was
  FlowState, else 0) around the cell's own probability, and without any clamping it lies
  between 0.5 and 1, because the variance of an indicator is at most 0.25. The rows are
  those the module builds: their flow-state flag says whether their state is FlowState
  (\<open>cleanData_isFlowState\<close>). The samples of a cell are the rows of its day and hour, and
  the probability is the mean of their indicators.
\<close>

theorem consistency_bernoulli:
  assumes rows: "\<forall>e\<in>set data. e_isFlowState e = (e_state e = FlowState)"
    and cell: "analyzeTemporalPatterns data key = Some p"
    and nonempty: "p_totalCount p > 0"
  shows "p_samples p = map (\<lambda>e. (e_timestamp e, e_state e))
                         (filter (\<lambda>e. (e_dayOfWeek e, e_hour e) = key) data) \<and>
         p_totalCount p = length (p_samples p) \<and>
         p_probability p = (\<Sum>x\<leftarrow>p_samples p. spec_indicator x) / real (p_totalCount p) \<and>
         p_consistency p =
           1 - sqrt (spec_population_variance (p_probability p)
                       (map spec_indicator (p_samples p))) \<and>
         1 / 2 \<le> p_consistency p \<and> p_consistency p \<le> 1"
proof -
  define es where "es = filter (\<lambda>e. (e_dayOfWeek e, e_hour e) = key) data"
  define c where "c = fold addToPattern es (newPattern (fst key) (snd key))"
  define xs where "xs = map (\<lambda>e. (e_timestamp e, e_state e)) es"
  from cell have p: "p = finishPattern c"
    by (simp add: analyze_apply es_def c_def split: if_splits)
  have samples: "p_samples c = xs"
    by (simp add: c_def xs_def fold_addToPattern_samples newPattern_def)
  have total: "p_totalCount c = length xs"
    by (simp add: c_def xs_def fold_addToPattern_total newPattern_def)
  have "\<forall>e\<in>set es. e_isFlowState e = (e_state e = FlowState)"
    using rows by (simp add: es_def)
  then have "filter e_isFlowState es = filter (\<lambda>e. e_state e = FlowState) es"
    by (intro filter_cong) auto
  then have flow: "p_flowStateCount c = length (filter (\<lambda>s. snd s = FlowState) xs)"
    by (simp add: c_def xs_def fold_addToPattern_flow newPattern_def filter_map comp_def)
  have pos: "p_totalCount c > 0"
    using nonempty by (simp add: p finishPattern_def Let_def split: if_splits)
  then have ne: "xs \<noteq> []" using total by auto
  define q where "q = real (length (filter (\<lambda>s. snd s = FlowState) xs)) / real (length xs)"
  have prob: "p_probability p = q"
    using pos by (simp add: p finishPattern_def Let_def flow total q_def)
  have cons: "p_consistency p = 1 - sqrt (spec_population_variance q (map spec_indicator xs))"
    using pos sampleVariance_spec [of q xs]
    by (simp add: p finishPattern_def Let_def flow total samples q_def)
  have psamples: "p_samples p = xs" and ptotal: "p_totalCount p = length xs"
    using pos by (simp_all add: p finishPattern_def Let_def samples total)
  have v0: "0 \<le> spec_population_variance q (map spec_indicator xs)"
    and v1: "spec_population_variance q (map spec_indicator xs) \<le> 1 / 4"
    using variance_bounds [OF ne] by (simp_all add: q_def)
  have "sqrt (spec_population_variance q (map spec_indicator xs)) \<le> sqrt (1 / 4)"
    using v1 by (rule real_sqrt_le_mono)
  also have "sqrt (1 / 4) = 1 / 2"
    by (simp add: real_sqrt_divide)
  finally have s1: "sqrt (spec_population_variance q (map spec_indicator xs)) \<le> 1 / 2" .
  have s0: "0 \<le> sqrt (spec_population_variance q (map spec_indicator xs))"
    using v0 by simp
  have A: "p_samples p = map (\<lambda>e. (e_timestamp e, e_state e))
                         (filter (\<lambda>e. (e_dayOfWeek e, e_hour e) = key) data)"
    by (simp add: psamples xs_def es_def)
  have B: "p_totalCount p = length (p_samples p)"
    by (simp add: psamples ptotal)
  have C: "p_probability p = (\<Sum>x\<leftarrow>p_samples p. spec_indicator x) / real (p_totalCount p)"
    by (simp only: psamples ptotal prob q_def sum_indicator)
  have D: "p_consistency p =
      1 - sqrt (spec_population_variance (p_probability p) (map spec_indicator (p_samples p)))"
    by (simp only: psamples prob cons)
  have E: "1 / 2 \<le> p_consistency p \<and> p_consistency p \<le> 1"
    using s0 s1 by (simp add: cons)
  from A B C D E show ?thesis by (intro conjI) simp_all
qed

theorem consistency_bernoulli_witness:
  "p_totalCount (the (analyzeTemporalPatterns (cleanData [quietRow, loudRow, laterRow, noPulseRow]) (4, 0))) = 2 \<and>
   p_probability (the (analyzeTemporalPatterns (cleanData [quietRow, loudRow, laterRow, noPulseRow]) (4, 0))) = 1 / 2 \<and>
   p_consistency (the (analyzeTemporalPatterns (cleanData [quietRow, loudRow, laterRow, noPulseRow]) (4, 0))) = 1 / 2"
proof -
  let ?data = "cleanData [quietRow, loudRow, laterRow, noPulseRow]"
  have cell: "analyzeTemporalPatterns ?data (4, 0) = Some (the (analyzeTemporalPatterns ?data (4, 0)))"
    by (simp add: analyze_apply)
  have total: "p_totalCount (the (analyzeTemporalPatterns ?data (4, 0))) = 2"
    by (simp add: cell_eval)
  have prob: "p_probability (the (analyzeTemporalPatterns ?data (4, 0))) = 1 / 2"
    by (simp add: cell_eval)
  have pos: "p_totalCount (the (analyzeTemporalPatterns ?data (4, 0))) > 0"
    by (simp add: total)
  have samples: "map spec_indicator (p_samples (the (analyzeTemporalPatterns ?data (4, 0)))) = [1, 0]"
    by (simp add: cell_eval spec_indicator_def)
  from consistency_bernoulli [OF cleanData_isFlowState cell pos]
  have "p_consistency (the (analyzeTemporalPatterns ?data (4, 0))) =
      1 - sqrt (spec_population_variance (1 / 2) [1, 0])"
    by (simp add: prob samples)
  then show ?thesis
    by (simp add: total prob spec_population_variance_def power2_eq_square sqrt_quarter)
qed

section \<open>The BPM of a historical row\<close>

lemma quadrant_inside:
  "\<not> (bpm < 40 \<or> bpm > 200) \<Longrightarrow>
   classifyStateForPrediction noise bpm rr =
     spec_quadrant (spec_isQuiet noise) (spec_isGoodPhysio bpm rr)"
  by (cases "noise < 55"; cases "rr > 700 \<or> (60 \<le> bpm \<and> bpm \<le> 80)")
     (auto simp add: classifyStateForPrediction_def thresholds Let_def
        spec_isQuiet_def spec_isGoodPhysio_def)

lemma fold_addToPattern_bpmSum:
  "p_bpmSum (fold addToPattern es p) = p_bpmSum p + (\<Sum>e\<leftarrow>es. e_bpm e)"
  by (induction es arbitrary: p) (simp_all add: addToPattern_def)

lemma finishPattern_bpmSum: "p_bpmSum (finishPattern p) = p_bpmSum p"
  by (simp add: finishPattern_def Let_def)

lemma cleanEntry_bpm: "e_bpm (cleanEntry f) = real_of_int (spec_bpm f)"
  by (simp add: cleanEntry_def Let_def spec_bpm_def)

lemma cleanEntry_state:
  "e_state (cleanEntry f) =
   classifyStateForPrediction (e_noise (cleanEntry f)) (e_bpm (cleanEntry f))
     (e_rrInterval (cleanEntry f))"
  by (simp add: cleanEntry_def Let_def)

lemma cleanData_filter:
  "cleanData feeds = map cleanEntry (filter (\<lambda>f. 40 \<le> spec_bpm f \<and> spec_bpm f \<le> 200) feeds)"
  by (simp add: cleanData_def filter_map comp_def cleanEntry_bpm thresholds)

text \<open>
  C10: for every historical row materialised for analysis, the BPM used for the state
  classification, for the validity filter and for the aggregation is the averaged BPM
  (field 5) when it is greater than zero, and the instantaneous BPM (field 6) otherwise;
  the rows whose BPM lies outside [40, 200] are dropped before the aggregation, so the
  classifier's out-of-range Standby branch is never the one taken on an aggregated row:
  the state of every aggregated row is the four-quadrant result.
\<close>

theorem cleanData_valid_bpm:
  "cleanData feeds = map cleanEntry (filter (\<lambda>f. 40 \<le> spec_bpm f \<and> spec_bpm f \<le> 200) feeds) \<and>
   (\<forall>f. e_bpm (cleanEntry f) = real_of_int (spec_bpm f) \<and>
        e_state (cleanEntry f) =
          classifyStateForPrediction (or_zero (field2 f)) (real_of_int (spec_bpm f))
            (or_zero (field3 f))) \<and>
   (\<forall>d\<in>set (cleanData feeds).
        40 \<le> e_bpm d \<and> e_bpm d \<le> 200 \<and>
        e_state d = spec_quadrant (spec_isQuiet (e_noise d))
                      (spec_isGoodPhysio (e_bpm d) (e_rrInterval d))) \<and>
   (\<forall>key p. analyzeTemporalPatterns (cleanData feeds) key = Some p \<longrightarrow>
        p_bpmSum p =
          (\<Sum>f\<leftarrow>filter (\<lambda>f. (getDay (created_at f), getHours (created_at f)) = key)
                 (filter (\<lambda>f. 40 \<le> spec_bpm f \<and> spec_bpm f \<le> 200) feeds).
             real_of_int (spec_bpm f)))"
proof (intro conjI allI ballI impI)
  show "cleanData feeds = map cleanEntry (filter (\<lambda>f. 40 \<le> spec_bpm f \<and> spec_bpm f \<le> 200) feeds)"
    by (rule cleanData_filter)
next
  fix f
  show "e_bpm (cleanEntry f) = real_of_int (spec_bpm f)"
    by (rule cleanEntry_bpm)
  show "e_state (cleanEntry f) =
      classifyStateForPrediction (or_zero (field2 f)) (real_of_int (spec_bpm f)) (or_zero (field3 f))"
    by (simp add: cleanEntry_def Let_def spec_bpm_def)
next
  fix d assume d: "d \<in> set (cleanData feeds)"
  then obtain f where f: "d = cleanEntry f" and lo: "40 \<le> e_bpm d" and hi: "e_bpm d \<le> 200"
    by (auto simp: cleanData_def thresholds)
  show "40 \<le> e_bpm d" by (rule lo)
  show "e_bpm d \<le> 200" by (rule hi)
  have "\<not> (e_bpm d < 40 \<or> e_bpm d > 200)" using lo hi by simp
  moreover have "e_state d = classifyStateForPrediction (e_noise d) (e_bpm d) (e_rrInterval d)"
    unfolding f by (rule cleanEntry_state)
  ultimately show "e_state d = spec_quadrant (spec_isQuiet (e_noise d))
                      (spec_isGoodPhysio (e_bpm d) (e_rrInterval d))"
    using quadrant_inside [of "e_bpm d" "e_noise d" "e_rrInterval d"] by simp
next
  fix key p assume "analyzeTemporalPatterns (cleanData feeds) key = Some p"
  then have "p_bpmSum p =
      (\<Sum>e\<leftarrow>filter (\<lambda>e. (e_dayOfWeek e, e_hour e) = key) (cleanData feeds). e_bpm e)"
    by (auto simp: analyze_apply finishPattern_bpmSum fold_addToPattern_bpmSum newPattern_def
        split: if_splits)
  also have "\<dots> = (\<Sum>f\<leftarrow>filter (\<lambda>f. (getDay (created_at f), getHours (created_at f)) = key)
                 (filter (\<lambda>f. 40 \<le> spec_bpm f \<and> spec_bpm f \<le> 200) feeds).
             real_of_int (spec_bpm f))"
    by (simp add: cleanData_filter filter_map comp_def cleanEntry_bpm)
       (simp add: cleanEntry_def Let_def)
  finally show "p_bpmSum p =
          (\<Sum>f\<leftarrow>filter (\<lambda>f. (getDay (created_at f), getHours (created_at f)) = key)
                 (filter (\<lambda>f. 40 \<le> spec_bpm f \<and> spec_bpm f \<le> 200) feeds).
             real_of_int (spec_bpm f))" .
qed

theorem cleanData_valid_bpm_witness:
  "cleanData [quietRow, loudRow, laterRow, noPulseRow] =
     [cleanEntry quietRow, cleanEntry loudRow, cleanEntry laterRow] \<and>
   e_bpm (cleanEntry quietRow) = 72 \<and> e_state (cleanEntry quietRow) = FlowState \<and>
   e_bpm (cleanEntry loudRow) = 100 \<and> e_state (cleanEntry loudRow) = Distracted \<and>
   e_bpm (cleanEntry noPulseRow) = 0 \<and>
   p_bpmSum (the (analyzeTemporalPatterns
                    (cleanData [quietRow, loudRow, laterRow, noPulseRow]) (4, 0))) = 172"
proof -
  let ?feeds = "[quietRow, loudRow, laterRow, noPulseRow]"
  note inst = cleanData_valid_bpm [of ?feeds]
  note kept = inst [THEN conjunct1]
  note row = inst [THEN conjunct2, THEN conjunct1, rule_format]
  note sums = inst [THEN conjunct2, THEN conjunct2, THEN conjunct2, rule_format]
  have cell: "analyzeTemporalPatterns (cleanData ?feeds) (4, 0) =
      Some (the (analyzeTemporalPatterns (cleanData ?feeds) (4, 0)))"
    by (simp add: analyze_apply)
  have bpm: "spec_bpm quietRow = 72" "spec_bpm loudRow = 100" "spec_bpm laterRow = 72"
    "spec_bpm noPulseRow = 0"
    by (simp_all add: spec_bpm_def or_zero_def quietRow_def loudRow_def laterRow_def noPulseRow_def)
  have keys: "getDay (created_at quietRow) = 4" "getHours (created_at quietRow) = 0"
    "getDay (created_at loudRow) = 4" "getHours (created_at loudRow) = 0"
    "getDay (created_at laterRow) = 4" "getHours (created_at laterRow) = 1"
    by (simp_all add: getDay_def getHours_def quietRow_def loudRow_def laterRow_def)
  have "p_bpmSum (the (analyzeTemporalPatterns (cleanData ?feeds) (4, 0))) = 172"
    using sums [OF cell] by (simp add: bpm keys)
  moreover have "cleanData ?feeds = [cleanEntry quietRow, cleanEntry loudRow, cleanEntry laterRow]"
    using kept by (simp add: bpm)
  moreover have fields: "or_zero (field2 quietRow) = 40" "or_zero (field3 quietRow) = 650"
    "or_zero (field2 loudRow) = 70" "or_zero (field3 loudRow) = 30"
    by (simp_all add: or_zero_def quietRow_def loudRow_def)
  moreover have "e_state (cleanEntry quietRow) = FlowState"
    using row [of quietRow] unfolding bpm fields
    by (simp add: classifyStateForPrediction_def thresholds)
  moreover have "e_state (cleanEntry loudRow) = Distracted"
    using row [of loudRow] unfolding bpm fields
    by (simp add: classifyStateForPrediction_def thresholds)
  moreover have "e_bpm (cleanEntry quietRow) = 72" "e_bpm (cleanEntry loudRow) = 100"
    "e_bpm (cleanEntry noPulseRow) = 0"
    using row [of quietRow] row [of loudRow] row [of noPulseRow] by (simp_all add: bpm)
  ultimately show ?thesis by simp
qed

section \<open>Sorting and selecting the predictions\<close>

lemma mset_insert_by: "mset (insert_by cmp x ys) = add_mset x (mset ys)"
  by (induction ys) simp_all

lemma mset_sort_by: "mset (sort_by cmp xs) = mset xs"
  by (induction xs) (simp_all add: sort_by_def mset_insert_by)

lemma set_sort_by: "set (sort_by cmp xs) = set xs"
  using mset_sort_by [of cmp xs] by (metis set_mset_mset)

lemma length_sort_by: "length (sort_by cmp xs) = length xs"
  using mset_sort_by [of cmp xs] by (metis size_mset)


lemma floorlog_pos: "0 < n \<Longrightarrow> 0 < floorlog 2 n"
  by (simp add: floorlog_def)

lemma exponent_lower:
  assumes "x \<noteq> 0"
  shows "pow2 (exponent x) \<le> \<bar>x\<bar>"
proof (cases "1 \<le> \<bar>x\<bar>")
  case True
  define n where "n = nat \<lfloor>\<bar>x\<bar>\<rfloor>"
  have n: "0 < n" using True by (simp add: n_def)
  have "2 ^ (floorlog 2 n - 1) \<le> n"
    using floorlog_bounds [of n 2] n by simp
  then have "(2::real) ^ (floorlog 2 n - 1) \<le> real n"
    by (metis of_nat_le_iff of_nat_numeral of_nat_power)
  also have "real n \<le> \<bar>x\<bar>"
    using True by (simp add: n_def)
  finally have "(2::real) ^ (floorlog 2 n - 1) \<le> \<bar>x\<bar>" .
  moreover have "exponent x = int (floorlog 2 n) - 1"
    using True by (simp add: exponent_def n_def)
  moreover have "nat (int (floorlog 2 n) - 1) = floorlog 2 n - 1" by simp
  ultimately show ?thesis
    using floorlog_pos [OF n] by (simp add: pow2_def)
next
  case False
  define y where "y = 1 / \<bar>x\<bar>"
  define m where "m = nat (\<lceil>y\<rceil> - 1)"
  have x: "0 < \<bar>x\<bar>" "\<bar>x\<bar> < 1" using assms False by simp_all
  then have y: "1 < y" by (simp add: y_def)
  then have c: "2 \<le> \<lceil>y\<rceil>" by linarith
  then have m: "0 < m" by (simp add: m_def)
  define k where "k = floorlog 2 m"
  have k: "0 < k" unfolding k_def by (rule floorlog_pos [OF m])
  have "m < 2 ^ k"
    using floorlog_bounds [of m 2] m by (simp add: k_def)
  then have "Suc m \<le> 2 ^ k" by simp
  then have "real (Suc m) \<le> 2 ^ k"
    by (metis of_nat_le_iff of_nat_numeral of_nat_power)
  moreover have "real (Suc m) = real_of_int \<lceil>y\<rceil>"
    using c by (simp add: m_def)
  moreover have "y \<le> real_of_int \<lceil>y\<rceil>" by simp
  ultimately have "y \<le> 2 ^ k" by linarith
  then have "1 / 2 ^ k \<le> \<bar>x\<bar>"
    using x by (simp add: y_def field_simps)
  moreover have "exponent x = - int k"
    using False by (simp add: exponent_def k_def m_def y_def)
  ultimately show ?thesis
    using k by (simp add: pow2_def)
qed


lemma pow2_pos: "0 < pow2 k"
  by (simp add: pow2_def)

lemma pow2_powr: "pow2 k = 2 powr real_of_int k"
  by (simp add: pow2_def powr_real_of_int divide_inverse)

lemma pow2_add: "pow2 (a + b) = pow2 a * pow2 b"
  by (simp add: pow2_powr powr_add)

lemma roundEven_pos: "1 \<le> x \<Longrightarrow> 0 < roundEven x"
  by (simp add: roundEven_def Let_def)

lemma fl_pos:
  assumes "0 < x"
  shows "0 < fl x"
proof -
  define u where "u = pow2 (exponent x - 52)"
  have u: "0 < u" unfolding u_def by (rule pow2_pos)
  have "pow2 (exponent x) = u * pow2 52"
    using pow2_add [of "exponent x - 52" 52] by (simp add: u_def)
  moreover have "1 \<le> pow2 52" by (simp add: pow2_def)
  ultimately have "u \<le> pow2 (exponent x)" using u by simp
  also have "\<dots> \<le> \<bar>x\<bar>" using assms by (intro exponent_lower) simp
  finally have "1 \<le> \<bar>x\<bar> / u" using u by (simp add: field_simps)
  then have "0 < roundEven (\<bar>x\<bar> / u)" by (rule roundEven_pos)
  then show ?thesis
    using assms u by (simp add: fl_def u_def [symmetric] Let_def)
qed

lemma fl_minus: "fl (- x) = - fl x"
  by (simp add: fl_def exponent_def Let_def)

lemma fl_le_0_iff: "fl x \<le> 0 \<longleftrightarrow> x \<le> 0"
proof (cases "0 < x")
  case True
  then show ?thesis using fl_pos [of x] by simp
next
  case False
  show ?thesis
  proof (cases "x = 0")
    case True
    then show ?thesis by (simp add: fl_def)
  next
    case nz: False
    with False have "0 < - x" by simp
    then have "0 < fl (- x)" by (rule fl_pos)
    then show ?thesis using False by (simp add: fl_minus)
  qed
qed

lemmas fl_eval = fl_def exponent_def pow2_def roundEven_def compute_floorlog

lemma fl_0: "fl 0 = 0"
  by (simp add: fl_def)

lemma fl_1: "fl 1 = 1"
  by (simp add: fl_eval)










lemma compareScore_le: "compareScore a b \<le> 0 \<longleftrightarrow> score b \<le> score a"
  by (simp add: compareScore_def Let_def fl_le_0_iff)






lemma fold_push:
  "fold (\<lambda>i acc. case f i of None \<Rightarrow> acc | Some q \<Rightarrow> acc @ [q]) is acc =
   acc @ List.map_filter f is"
  by (induction "is" arbitrary: acc) (simp_all add: List.map_filter_simps split: option.split)

lemma candidates_map_filter:
  "candidates now pats = List.map_filter (candidate now pats) [1..<25]"
  by (simp add: candidates_def fold_push PREDICTION_WINDOW_def)

lemma set_map_filter_iff:
  "q \<in> set (List.map_filter f xs) \<longleftrightarrow> (\<exists>x\<in>set xs. f x = Some q)"
  by (induction xs) (auto split: option.splits)

lemma length_map_filter_le: "length (List.map_filter f xs) \<le> length xs"
  by (induction xs) (auto split: option.splits)

lemma candidates_elem:
  "q \<in> set (candidates now pats) \<longleftrightarrow> (\<exists>i\<in>{1..24}. candidate now pats i = Some q)"
  by (auto simp: candidates_map_filter set_map_filter_iff)

lemma candidate_Some:
  assumes "candidate now pats i = Some q"
  shows "\<exists>p. pats (q_dayOfWeek q, q_hour q) = Some p \<and>
             q_dayOfWeek q = getDay (now + int i * 3600000) \<and>
             q_hour q = getHours (now + int i * 3600000) \<and>
             q_probability q = p_probability p \<and>
             q_sampleSize q = p_totalCount p \<and>
             q_confidence q = calculatePredictionConfidence p \<and>
             q_consistency q = p_consistency p \<and>
             3 / 10 \<le> p_probability p"
  using assms
  by (auto simp: candidate_def Let_def FLOW_STATE_THRESHOLD_def mult.commute split: option.splits if_splits)

subsection \<open>A sample run\<close>

lemma next_hours: "[1..<25] = [1, 2, 3, 4, 5, 6, 7, 8, 9, 10, 11, 12, 13, 14, 15, 16, 17, 18, 19, 20, 21, 22, 23, 24 :: nat]"
  by code_simp

lemma candidates_unfold:
  "candidates now pats = List.map_filter (candidate now pats)
     [1, 2, 3, 4, 5, 6, 7, 8, 9, 10, 11, 12, 13, 14, 15, 16, 17, 18, 19, 20, 21, 22, 23, 24]"
  by (simp only: candidates_map_filter next_hours)

lemma fold_addToPattern_closed:
  "fold addToPattern es p =
   p\<lparr>p_totalCount := p_totalCount p + length es,
     p_noiseSum := p_noiseSum p + (\<Sum>e\<leftarrow>es. e_noise e),
     p_bpmSum := p_bpmSum p + (\<Sum>e\<leftarrow>es. e_bpm e),
     p_rrIntervalSum := p_rrIntervalSum p + (\<Sum>e\<leftarrow>es. e_rrInterval e),
     p_flowStateCount := p_flowStateCount p + length (filter e_isFlowState es),
     p_samples := p_samples p @ map (\<lambda>e. (e_timestamp e, e_state e)) es\<rparr>"
  by (induction es arbitrary: p) (simp_all add: addToPattern_def)

lemma sampleVariance_sum:
  "sampleVariance q xs n = (\<Sum>x\<leftarrow>xs. (spec_indicator x - q) ^ 2) / real n"
  by (simp add: sampleVariance_def foldl_squares Let_def)

lemmas run_eval =
  candidates_unfold candidate_def calculatePredictionConfidence_def Math_round_def
  FLOW_STATE_THRESHOLD_def analyze_apply finishPattern_def sampleVariance_sum
  fold_addToPattern_closed addToPattern_def newPattern_def spec_indicator_def
  cleanData_def cleanEntry_def classifyStateForPrediction_def thresholds or_zero_def
  getDay_def getHours_def Let_def quietRow_def loudRow_def laterRow_def noPulseRow_def
  filter_replicate sum_list_replicate sqrt_quarter power2_eq_square

lemma sample_candidates:
  "candidates (- 3600000) (analyzeTemporalPatterns (cleanData sampleRows)) =
     [firstPrediction, secondPrediction]"
  by (simp add: run_eval sampleRows_def firstPrediction_def secondPrediction_def del: fold_replicate)

lemma sample_sorted:
  "sort_by compareScore [firstPrediction, secondPrediction] = [secondPrediction, firstPrediction]"
  by (simp add: sort_by_def compareScore_le score_def firstPrediction_def secondPrediction_def
      fl_0 fl_1)

lemma sample_predictions:
  "generateFlowStatePredictions (- 3600000) (analyzeTemporalPatterns (cleanData sampleRows)) =
     [secondPrediction, firstPrediction]"
  by (simp add: generateFlowStatePredictions_def sample_candidates sample_sorted TOP_PREDICTIONS_def)

lemma sample_length: "length (cleanData sampleRows) = 100"
  by (simp add: sampleRows_def cleanData_filter spec_bpm_def or_zero_def
      quietRow_def loudRow_def laterRow_def noPulseRow_def filter_replicate)

lemma fetch_Some:
  "feeds \<noteq> [] \<Longrightarrow> fetchPredictionHistoricalData (Some feeds) = Some (cleanData feeds)"
  by (simp add: fetchPredictionHistoricalData_def)

lemma sample_run:
  "runPredictionAnalysis (- 3600000) (Some sampleRows) pd =
     (Some [secondPrediction, firstPrediction],
      pd\<lparr>predictions := [secondPrediction, firstPrediction], lastUpdate := Some (- 3600000),
         confidence := 41, dataQuality := Low\<rparr>,
      UIPredictions [secondPrediction, firstPrediction] 41)"
proof -
  have ne: "sampleRows \<noteq> []" by (simp add: sampleRows_def)
  have oc: "calculateOverallConfidence [secondPrediction, firstPrediction] 100 = 41"
    by (simp add: calculateOverallConfidence_def Math_round_def firstPrediction_def
        secondPrediction_def Let_def)
  show ?thesis
    by (simp add: runPredictionAnalysis_def fetch_Some [OF ne] sample_length
        MIN_DATA_POINTS_def sample_predictions Let_def oc assessDataQuality_def)
qed



lemma rounding_scores:
  "fl (fl (1 / 2) * fl (60 / 100)) = 5404319552844595 / 2 ^ 54"
  "fl (fl (3 / 8) * fl (80 / 100)) = 5404319552844596 / 2 ^ 54"
  by (simp_all add: fl_eval)



text \<open>
  C1, as amended: every forecast run returns at most 5 predictions, and every returned
  prediction has a probability of at least 0.30, the probability of its cell. The sample
  count of the cell is not a condition for returning it: a prediction whose cell has
  fewer than 10 samples is returned with confidence 0.
\<close>

theorem predictions_bounded:
  "length (generateFlowStatePredictions now pats) \<le> 5 \<and>
   (\<forall>q\<in>set (generateFlowStatePredictions now pats).
      q_probability q \<ge> 3 / 10 \<and>
      (q_sampleSize q < 10 \<longrightarrow> q_confidence q = 0) \<and>
      (\<exists>p. pats (q_dayOfWeek q, q_hour q) = Some p \<and> q_probability q = p_probability p \<and>
           q_sampleSize q = p_totalCount p \<and> q_confidence q = calculatePredictionConfidence p))"
proof (intro conjI ballI)
  show "length (generateFlowStatePredictions now pats) \<le> 5"
    by (simp add: generateFlowStatePredictions_def TOP_PREDICTIONS_def)
next
  fix q assume "q \<in> set (generateFlowStatePredictions now pats)"
  then have "q \<in> set (sort_by compareScore (candidates now pats))"
    unfolding generateFlowStatePredictions_def by (rule in_set_takeD)
  then have "q \<in> set (candidates now pats)" by (simp add: set_sort_by)
  then obtain i where "candidate now pats i = Some q"
    by (auto simp: candidates_elem)
  from candidate_Some [OF this] obtain p where
    p: "pats (q_dayOfWeek q, q_hour q) = Some p" "q_probability q = p_probability p"
      "q_sampleSize q = p_totalCount p" "q_confidence q = calculatePredictionConfidence p"
      "3 / 10 \<le> p_probability p"
    by blast
  show "q_probability q \<ge> 3 / 10" using p by simp
  show "q_sampleSize q < 10 \<longrightarrow> q_confidence q = 0"
    using p by (simp add: calculatePredictionConfidence_def Let_def)
  show "\<exists>p. pats (q_dayOfWeek q, q_hour q) = Some p \<and> q_probability q = p_probability p \<and>
           q_sampleSize q = p_totalCount p \<and> q_confidence q = calculatePredictionConfidence p"
    using p by blast
qed

theorem predictions_bounded_witness:
  "length (generateFlowStatePredictions (- 3600000)
     (analyzeTemporalPatterns (cleanData sampleRows))) \<le> 5 \<and>
   firstPrediction \<in> set (generateFlowStatePredictions (- 3600000)
     (analyzeTemporalPatterns (cleanData sampleRows))) \<and>
   q_sampleSize firstPrediction < 10 \<and>
   q_confidence firstPrediction = 0 \<and>
   q_probability firstPrediction \<ge> 3 / 10"
proof -
  have m: "firstPrediction \<in> set (generateFlowStatePredictions (- 3600000)
      (analyzeTemporalPatterns (cleanData sampleRows)))"
    by (simp add: sample_predictions)
  have s: "q_sampleSize firstPrediction < 10"
    by (simp add: firstPrediction_def)
  note inst = predictions_bounded [of "- 3600000" "analyzeTemporalPatterns (cleanData sampleRows)"]
  note each = inst [THEN conjunct2, rule_format, OF m]
  from inst [THEN conjunct1] m s each [THEN conjunct1]
    each [THEN conjunct2, THEN conjunct1, rule_format, OF s]
  show ?thesis by simp
qed

text \<open>
  The run on the sample history at 23:00 on the day before returns the prediction for the
  first hour, whose cell has two samples.
\<close>

theorem low_sample_prediction_returned:
  "map q_sampleSize
     (the (fst (runPredictionAnalysis (- 3600000) (Some sampleRows) initialPredictionData))) =
     [98, 2] \<and>
   map q_probability
     (the (fst (runPredictionAnalysis (- 3600000) (Some sampleRows) initialPredictionData))) =
     [1, 1 / 2] \<and>
   map q_confidence
     (the (fst (runPredictionAnalysis (- 3600000) (Some sampleRows) initialPredictionData))) =
     [100, 0]"
  by (simp add: sample_run firstPrediction_def secondPrediction_def)

section \<open>Runs with too little data\<close>

lemma validCount_fetch:
  "spec_validCount response =
   (case fetchPredictionHistoricalData response of None \<Rightarrow> 0 | Some d \<Rightarrow> length d)"
  by (cases response)
     (simp_all add: spec_validCount_def fetchPredictionHistoricalData_def cleanData_filter)

text \<open>
  C7, as amended: a forecast run whose count of valid historical samples is below 100
  returns no predictions (\<^verbatim>\<open>null\<close>), does not aggregate or score, shows the progress
  toward the minimum, and leaves the stored predictions, confidence and data-quality
  label as they were; the label is \<open>Insufficient\<close> when it was so before the run, as it is
  initially, and \<open>Insufficient\<close> is what \<open>assessDataQuality\<close> gives for such a count.
\<close>

theorem insufficient_data_run:
  assumes "spec_validCount response < 100"
  shows "runPredictionAnalysis now response pd =
           (None, pd, UINoData (spec_validCount response)) \<and>
         assessDataQuality (spec_validCount response) = Insufficient"
proof
  show "runPredictionAnalysis now response pd = (None, pd, UINoData (spec_validCount response))"
  proof (cases "fetchPredictionHistoricalData response")
    case None
    then show ?thesis
      by (simp add: runPredictionAnalysis_def validCount_fetch)
  next
    case (Some d)
    with assms have "length d < 100" by (simp add: validCount_fetch)
    with Some show ?thesis
      by (simp add: runPredictionAnalysis_def validCount_fetch MIN_DATA_POINTS_def)
  qed
  show "assessDataQuality (spec_validCount response) = Insufficient"
    using assms by (simp add: assessDataQuality_def)
qed

lemma small_count: "spec_validCount (Some [quietRow, loudRow, noPulseRow]) = 2"
  by (simp add: spec_validCount_def spec_bpm_def or_zero_def quietRow_def loudRow_def
      noPulseRow_def)

theorem insufficient_data_run_witness:
  "spec_validCount (Some [quietRow, loudRow, noPulseRow]) < 100 \<and>
   runPredictionAnalysis 0 (Some [quietRow, loudRow, noPulseRow]) initialPredictionData =
     (None, initialPredictionData, UINoData 2) \<and>
   predictions initialPredictionData = [] \<and>
   dataQuality initialPredictionData = Insufficient"
proof -
  have c: "spec_validCount (Some [quietRow, loudRow, noPulseRow]) < 100"
    by (simp add: small_count)
  from insufficient_data_run [OF c, of 0 initialPredictionData] c
  show ?thesis by (simp add: small_count initialPredictionData_def)
qed

text \<open>
  After a run on the sample history has stored the label \<open>Low\<close>, a run with two valid
  samples leaves that label and the stored predictions in place.
\<close>

theorem stale_quality_label:
  "spec_validCount (Some [quietRow, loudRow, noPulseRow]) = 2 \<and>
   dataQuality (fst (snd (runPredictionAnalysis 0 (Some [quietRow, loudRow, noPulseRow])
     (fst (snd (runPredictionAnalysis (- 3600000) (Some sampleRows) initialPredictionData))))))
     = Low \<and>
   predictions (fst (snd (runPredictionAnalysis 0 (Some [quietRow, loudRow, noPulseRow])
     (fst (snd (runPredictionAnalysis (- 3600000) (Some sampleRows) initialPredictionData))))))
     = [secondPrediction, firstPrediction]"
proof -
  have "runPredictionAnalysis 0 (Some [quietRow, loudRow, noPulseRow]) pd = (None, pd, UINoData 2)"
    for pd
    by (simp add: runPredictionAnalysis_def fetchPredictionHistoricalData_def cleanData_filter
        spec_bpm_def or_zero_def quietRow_def loudRow_def noPulseRow_def MIN_DATA_POINTS_def)
  then show ?thesis
    by (simp add: sample_run small_count)
qed

section \<open>Loss of contact\<close>

text \<open>
  What the branch for a reading at or below the detection threshold does, with the sensor
  present: it records the reading, clears the finger flag and sets seven variables to
  zero. Everything else stays, the statics of the detector among it.
\<close>

lemma no_finger_branch:
  assumes "max30102OK s" and "ir \<le> 50000"
  shows "readHeartSensor_UltraSensitive ir now s =
           s\<lparr>irValue := ir, fingerDetected := False, beatsPerMinute := 0, beatAvg := 0,
             beatCount := 0, irBaseline := 0, stableReadings := 0, irWindowFull := False,
             irWindowIndex := 0\<rparr>"
  using assms by (simp add: readHeartSensor_UltraSensitive_def IR_THRESHOLD_def Let_def)

text \<open>
  C8: on a reading at or below the detection threshold the detector is to reset the
  window fill state, the baseline, the stable-reading counter, the in-pulse flag and the
  instantaneous and averaged heart rate, and to leave the inter-beat-interval buffer and
  its sample count. The branch is commented as resetting all variables and restarts the
  detector, but it does not reach the in-pulse flag, a static of the detector: for a
  finger lifted during a pulse (reading 49000), the heart rates, the baseline, the
  counter and the window state are reset and the interval buffer is kept, yet the
  in-pulse flag is still set afterwards.
\<close>

theorem in_pulse_flag_kept:
  "inPulse (readHeartSensor_UltraSensitive 49000 5000
      ((initialNode True)\<lparr>inPulse := True, beatAvg := 72, hrvSampleCount := 7\<rparr>)) = True \<and>
   beatAvg (readHeartSensor_UltraSensitive 49000 5000
      ((initialNode True)\<lparr>inPulse := True, beatAvg := 72, hrvSampleCount := 7\<rparr>)) = 0 \<and>
   beatsPerMinute (readHeartSensor_UltraSensitive 49000 5000
      ((initialNode True)\<lparr>inPulse := True, beatAvg := 72, hrvSampleCount := 7\<rparr>)) = 0 \<and>
   irBaseline (readHeartSensor_UltraSensitive 49000 5000
      ((initialNode True)\<lparr>inPulse := True, beatAvg := 72, hrvSampleCount := 7\<rparr>)) = 0 \<and>
   stableReadings (readHeartSensor_UltraSensitive 49000 5000
      ((initialNode True)\<lparr>inPulse := True, beatAvg := 72, hrvSampleCount := 7\<rparr>)) = 0 \<and>
   irWindowFull (readHeartSensor_UltraSensitive 49000 5000
      ((initialNode True)\<lparr>inPulse := True, beatAvg := 72, hrvSampleCount := 7\<rparr>)) = False \<and>
   irWindowIndex (readHeartSensor_UltraSensitive 49000 5000
      ((initialNode True)\<lparr>inPulse := True, beatAvg := 72, hrvSampleCount := 7\<rparr>)) = 0 \<and>
   hrvSampleCount (readHeartSensor_UltraSensitive 49000 5000
      ((initialNode True)\<lparr>inPulse := True, beatAvg := 72, hrvSampleCount := 7\<rparr>)) = 7"
proof -
  have "max30102OK ((initialNode True)\<lparr>inPulse := True, beatAvg := 72, hrvSampleCount := 7\<rparr>)"
    by (simp add: initialNode_def)
  then show ?thesis
    by (simp add: no_finger_branch)
qed

section \<open>The adaptive threshold\<close>

lemma max_if: "max x (m::int) = (if x > m then x else m)"
  by (simp add: max_def)

lemma min_if: "min x (m::int) = (if x < m then x else m)"
  by (simp add: min_def)

lemma window_fold:
  fixes w :: "int list"
  assumes "n \<le> length w"
  shows "fold (\<lambda>i (sum, mx, mn).
                    (sum + w ! i,
                     if w ! i > mx then w ! i else mx,
                     if w ! i < mn then w ! i else mn)) [0..<n] (0, w ! 0, w ! 0) =
         (sum_list (take n w), Max (insert (w ! 0) (set (take n w))),
          Min (insert (w ! 0) (set (take n w))))"
  using assms
proof (induction n)
  case 0
  show ?case by simp
next
  case (Suc n)
  then have n: "n < length w" by simp
  let ?A = "insert (w ! 0) (set (take n w))"
  have t: "take (Suc n) w = take n w @ [w ! n]"
    using n by (simp add: take_Suc_conv_app_nth)
  have A: "insert (w ! 0) (set (take (Suc n) w)) = insert (w ! n) ?A"
    by (auto simp: t)
  have fin: "finite ?A" "?A \<noteq> {}" by simp_all
  have mx: "Max (insert (w ! n) ?A) = (if w ! n > Max ?A then w ! n else Max ?A)"
    unfolding Max_insert [OF fin] by (rule max_if)
  have mn: "Min (insert (w ! n) ?A) = (if w ! n < Min ?A then w ! n else Min ?A)"
    unfolding Min_insert [OF fin] by (rule min_if)
  have ih: "fold (\<lambda>i (sum, mx, mn).
                    (sum + w ! i,
                     if w ! i > mx then w ! i else mx,
                     if w ! i < mn then w ! i else mn)) [0..<n] (0, w ! 0, w ! 0) =
         (sum_list (take n w), Max ?A, Min ?A)"
    using Suc by simp
  show ?case
    unfolding A mx mn by (simp add: ih t)
qed

lemma calculateACDC_fields:
  fixes s :: node
  assumes "length (irWindow s) = 30"
  shows "irBaseline (calculateACDC s) = sum_list (irWindow s) sdiv 30"
    and "irAC (calculateACDC s) = (Max (set (irWindow s)) - Min (set (irWindow s))) sdiv 2"
    and "irAmplitude (calculateACDC s) = Max (set (irWindow s)) - Min (set (irWindow s))"
proof -
  let ?w = "irWindow s"
  have "?w \<noteq> []" using assms by auto
  then have "?w ! 0 \<in> set ?w" by (simp add: hd_conv_nth [symmetric])
  then have ins: "insert (?w ! 0) (set ?w) = set ?w" by auto
  have f: "fold (\<lambda>i (sum, mx, mn).
                    (sum + ?w ! i,
                     if ?w ! i > mx then ?w ! i else mx,
                     if ?w ! i < mn then ?w ! i else mn)) [0..<30] (0, ?w ! 0, ?w ! 0) =
         (sum_list ?w, Max (set ?w), Min (set ?w))"
    using window_fold [of 30 ?w] assms by (simp add: ins)
  show "irBaseline (calculateACDC s) = sum_list (irWindow s) sdiv 30"
    and "irAC (calculateACDC s) = (Max (set (irWindow s)) - Min (set (irWindow s))) sdiv 2"
    and "irAmplitude (calculateACDC s) = Max (set (irWindow s)) - Min (set (irWindow s))"
    by (simp_all add: calculateACDC_def IR_WINDOW_SIZE_def Let_def f)
qed

lemma replicate_update_same: "(replicate n x)[i := x] = replicate n x"
  by (induction n arbitrary: i) (simp_all split: nat.split)

lemma swinging_insert:
  "windowInsert (swingingNode\<lparr>irValue := 100036, fingerDetected := True\<rparr>) =
   swingingNode\<lparr>irValue := 100036, fingerDetected := True, irWindowIndex := 1\<rparr>"
  by (simp add: windowInsert_def swingingNode_def initialNode_def Let_def IR_WINDOW_SIZE_def
      list_update_append replicate_update_same)

text \<open>
  C4, as amended: on every tick in which the 30-sample window is full, the rising-edge
  threshold is baseline + (amplitude * 3) / 10 in the truncating integer arithmetic of C,
  where baseline is the integer quotient of the window's sum by 30 and amplitude is the
  integer half of the window's max-minus-min; and whenever amplitude < 30 the tick
  detects no edge and only sets the stable-readings counter to zero.
\<close>

theorem adaptive_threshold:
  assumes "max30102OK s" and "ir > 50000"
    and "length (irWindow s) = 30"
    and "irWindowFull (windowInsert (s\<lparr>irValue := ir, fingerDetected := True\<rparr>))"
  shows "(let t = windowInsert (s\<lparr>irValue := ir, fingerDetected := True\<rparr>) in
          readHeartSensor_UltraSensitive ir now s =
            detectHeartBeat_Adaptive now (calculateACDC t) \<and>
          irBaseline (calculateACDC t) = sum_list (irWindow t) sdiv 30 \<and>
          irAC (calculateACDC t) = (Max (set (irWindow t)) - Min (set (irWindow t))) sdiv 2 \<and>
          threshold (calculateACDC t) =
            sum_list (irWindow t) sdiv 30
              + ((Max (set (irWindow t)) - Min (set (irWindow t))) sdiv 2 * 3) sdiv 10 \<and>
          (irAC (calculateACDC t) < 30 \<longrightarrow>
             readHeartSensor_UltraSensitive ir now s = (calculateACDC t)\<lparr>stableReadings := 0\<rparr>))"
proof -
  define t where "t = windowInsert (s\<lparr>irValue := ir, fingerDetected := True\<rparr>)"
  have len: "length (irWindow t) = 30"
    using assms(3) by (simp add: t_def windowInsert_def Let_def)
  have tick: "readHeartSensor_UltraSensitive ir now s = detectHeartBeat_Adaptive now (calculateACDC t)"
    using assms(1,2,4)
    by (simp add: readHeartSensor_UltraSensitive_def IR_THRESHOLD_def Let_def t_def)
  show ?thesis
    unfolding Let_def t_def [symmetric]
    using calculateACDC_fields [OF len] tick
    by (simp add: threshold_def detectHeartBeat_Adaptive_def)
qed

theorem adaptive_threshold_witness:
  "max30102OK swingingNode \<and> (100036 :: int) > 50000 \<and> length (irWindow swingingNode) = 30 \<and>
   irWindowFull (windowInsert (swingingNode\<lparr>irValue := 100036, fingerDetected := True\<rparr>)) \<and>
   irBaseline (calculateACDC
     (windowInsert (swingingNode\<lparr>irValue := 100036, fingerDetected := True\<rparr>))) = 100000 \<and>
   irAC (calculateACDC
     (windowInsert (swingingNode\<lparr>irValue := 100036, fingerDetected := True\<rparr>))) = 36 \<and>
   threshold (calculateACDC
     (windowInsert (swingingNode\<lparr>irValue := 100036, fingerDetected := True\<rparr>))) = 100010 \<and>
   stableReadings (readHeartSensor_UltraSensitive 100000 7000
     ((initialNode True)\<lparr>irWindow := replicate 30 100000, irWindowFull := True,
        stableReadings := 3\<rparr>)) = 0"
proof -
  have a: "max30102OK swingingNode" "length (irWindow swingingNode) = 30"
    by (simp_all add: swingingNode_def initialNode_def)
  have b: "irWindowFull (windowInsert (swingingNode\<lparr>irValue := 100036, fingerDetected := True\<rparr>))"
    by (simp add: swinging_insert) (simp add: swingingNode_def)
  have w: "irWindow (swingingNode\<lparr>irValue := 100036, fingerDetected := True, irWindowIndex := 1\<rparr>)
      = replicate 15 100036 @ replicate 15 99964"
    by (simp add: swingingNode_def)
  have s: "sum_list (replicate 15 100036 @ replicate 15 (99964::int)) = 3000000"
    "Max (set (replicate 15 100036 @ replicate 15 (99964::int))) = 100036"
    "Min (set (replicate 15 100036 @ replicate 15 (99964::int))) = 99964"
    by (simp_all add: sum_list_replicate)
  let ?flat = "(initialNode True)\<lparr>irWindow := replicate 30 100000, irWindowFull := True,
        stableReadings := 3\<rparr>"
  have c: "max30102OK ?flat" "length (irWindow ?flat) = 30"
    "irWindowFull (windowInsert (?flat\<lparr>irValue := 100000, fingerDetected := True\<rparr>))"
    by (simp_all add: initialNode_def windowInsert_def Let_def IR_WINDOW_SIZE_def)
  have d: "irWindow (windowInsert (?flat\<lparr>irValue := 100000, fingerDetected := True\<rparr>)) =
      replicate 30 100000"
    by (simp add: initialNode_def windowInsert_def Let_def IR_WINDOW_SIZE_def
        replicate_update_same)
  note flat = adaptive_threshold [OF c(1) _ c(2) c(3), of 7000, unfolded Let_def]
  have "irAC (calculateACDC (windowInsert (?flat\<lparr>irValue := 100000, fingerDetected := True\<rparr>))) = 0"
    using flat [THEN conjunct2, THEN conjunct2, THEN conjunct1] by (simp add: d)
  then have "readHeartSensor_UltraSensitive 100000 7000 ?flat =
      (calculateACDC (windowInsert (?flat\<lparr>irValue := 100000, fingerDetected := True\<rparr>)))
        \<lparr>stableReadings := 0\<rparr>"
    using flat [THEN conjunct2, THEN conjunct2, THEN conjunct2, THEN conjunct2] by simp
  then have e: "stableReadings (readHeartSensor_UltraSensitive 100000 7000 ?flat) = 0"
    by simp
  note swing = adaptive_threshold [OF a(1) _ a(2) b, of 7000, unfolded Let_def swinging_insert w s]
  have f: "irBaseline (calculateACDC
      (swingingNode\<lparr>irValue := 100036, fingerDetected := True, irWindowIndex := 1\<rparr>)) = 100000"
    using swing [THEN conjunct2, THEN conjunct1] by (simp add: signed_divide_int_def)
  have g: "irAC (calculateACDC
      (swingingNode\<lparr>irValue := 100036, fingerDetected := True, irWindowIndex := 1\<rparr>)) = 36"
    using swing [THEN conjunct2, THEN conjunct2, THEN conjunct1]
    by (simp add: signed_divide_int_def)
  have h: "threshold (calculateACDC
      (swingingNode\<lparr>irValue := 100036, fingerDetected := True, irWindowIndex := 1\<rparr>)) = 100010"
    using swing [THEN conjunct2, THEN conjunct2, THEN conjunct2, THEN conjunct1]
    by (simp add: signed_divide_int_def)
  show ?thesis
    using a b e f g h by (simp add: swinging_insert)
qed

text \<open>
  A window with mean 100000 and max-minus-min 72: 0.3 of the amplitude 36 is 10.8, which
  the code truncates to 10 and rounding takes to 11.
\<close>

theorem threshold_truncates:
  "threshold (calculateACDC
     (windowInsert (swingingNode\<lparr>irValue := 100036, fingerDetected := True\<rparr>))) = 100010 \<and>
   spec_threshold (irWindow
     (windowInsert (swingingNode\<lparr>irValue := 100036, fingerDetected := True\<rparr>))) = 100011"
proof -
  have len: "length (irWindow (windowInsert (swingingNode\<lparr>irValue := 100036, fingerDetected := True\<rparr>))) = 30"
    by (simp add: swinging_insert) (simp add: swingingNode_def)
  have w: "irWindow swingingNode = replicate 15 100036 @ replicate 15 99964"
    by (simp add: swingingNode_def)
  have s: "sum_list (replicate 15 100036 @ replicate 15 (99964::int)) = 3000000"
    "Max (set (replicate 15 100036 @ replicate 15 (99964::int))) = 100036"
    "Min (set (replicate 15 100036 @ replicate 15 (99964::int))) = 99964"
    by (simp_all add: sum_list_replicate)
  show ?thesis
    using calculateACDC_fields [OF len]
    by (simp add: threshold_def swinging_insert w s signed_divide_int_def spec_threshold_def
        round_def sum_list_replicate)
qed

section \<open>The falling edge\<close>

lemma calculateHRV_frame:
  "calculateHRV s = s\<lparr>hrv_SDNN := hrv_SDNN (calculateHRV s), hrv_RMSSD := hrv_RMSSD (calculateHRV s)\<rparr>"
  by (simp add: calculateHRV_def Let_def split: prod.split)

lemma calculateHRV_fields:
  "rates (calculateHRV s) = rates s"
  "rrIntervals (calculateHRV s) = rrIntervals s"
  "rateSpot (calculateHRV s) = rateSpot s"
  "rrIndex (calculateHRV s) = rrIndex s"
  "beatsPerMinute (calculateHRV s) = beatsPerMinute s"
  "beatCount (calculateHRV s) = beatCount s"
  "lastBeat (calculateHRV s) = lastBeat s"
  "inPulse (calculateHRV s) = inPulse s"
  "irValue (calculateHRV s) = irValue s"
  "hrvSampleCount (calculateHRV s) = hrvSampleCount s"
  "beatAvg (calculateHRV s) = beatAvg s"
  by (subst calculateHRV_frame, simp)+

lemma admitBeat_fields:
  "rates (admitBeat delta s) = (rates s)[rateSpot s := word_of_int (beatsPerMinute s)]"
  "rrIntervals (admitBeat delta s) = (rrIntervals s)[rrIndex s := delta]"
  "rateSpot (admitBeat delta s) = (rateSpot s + 1) mod 4"
  "rrIndex (admitBeat delta s) = (rrIndex s + 1) mod 15"
  "beatsPerMinute (admitBeat delta s) = beatsPerMinute s"
  "beatCount (admitBeat delta s) = beatCount s"
  "lastBeat (admitBeat delta s) = lastBeat s"
  "inPulse (admitBeat delta s) = inPulse s"
  "irValue (admitBeat delta s) = irValue s"
  by (simp_all add: admitBeat_def Let_def RATE_SIZE_def RR_INTERVAL_SIZE_def
      calculateHRV_fields split: prod.split)

lemma fallingEdge_always:
  "lastBeat (fallingEdge now s) = now" "inPulse (fallingEdge now s) = False"
  "irValue (fallingEdge now s) = irValue s"
  by (simp_all add: fallingEdge_def Let_def admitBeat_fields)

lemma fallingEdge_computed:
  assumes "sint (lastBeat s) > 0" "now - lastBeat s > 400" "now - lastBeat s < 3000"
  shows "beatsPerMinute (fallingEdge now s) = sint (60000 div (now - lastBeat s))"
    and "beatCount (fallingEdge now s) = beatCount s + 1"
  using assms by (simp_all add: fallingEdge_def Let_def admitBeat_fields)

lemma fallingEdge_not_computed:
  assumes "\<not> (sint (lastBeat s) > 0 \<and> now - lastBeat s > 400 \<and> now - lastBeat s < 3000)"
  shows "fallingEdge now s = s\<lparr>inPulse := False, lastBeat := now\<rparr>"
  using assms by (auto simp add: fallingEdge_def Let_def)

lemma fallingEdge_admitted:
  assumes "sint (lastBeat s) > 0" "now - lastBeat s > 400" "now - lastBeat s < 3000"
    and "45 \<le> sint (60000 div (now - lastBeat s))" "sint (60000 div (now - lastBeat s)) \<le> 150"
  shows "rates (fallingEdge now s) =
           (rates s)[rateSpot s := word_of_int (sint (60000 div (now - lastBeat s)))]"
    and "rrIntervals (fallingEdge now s) = (rrIntervals s)[rrIndex s := now - lastBeat s]"
    and "rateSpot (fallingEdge now s) = (rateSpot s + 1) mod 4"
    and "rrIndex (fallingEdge now s) = (rrIndex s + 1) mod 15"
  using assms by (simp_all add: fallingEdge_def Let_def admitBeat_fields)

lemma fallingEdge_not_admitted:
  assumes "\<not> (sint (lastBeat s) > 0 \<and> now - lastBeat s > 400 \<and> now - lastBeat s < 3000 \<and>
      45 \<le> sint (60000 div (now - lastBeat s)) \<and> sint (60000 div (now - lastBeat s)) \<le> 150)"
  shows "rates (fallingEdge now s) = rates s"
    and "rrIntervals (fallingEdge now s) = rrIntervals s"
    and "rateSpot (fallingEdge now s) = rateSpot s"
    and "rrIndex (fallingEdge now s) = rrIndex s"
    and "hrvSampleCount (fallingEdge now s) = hrvSampleCount s"
    and "beatAvg (fallingEdge now s) = beatAvg s"
  using assms by (auto simp add: fallingEdge_def Let_def)

lemma detect_falling:
  assumes "irAC s \<ge> 30" "inPulse s" "irValue s < threshold s"
  shows "detectHeartBeat_Adaptive now s =
     (fallingEdge now (if irValue s > peakValue s then s\<lparr>peakValue := irValue s\<rparr> else s))
       \<lparr>lastValue := irValue s\<rparr>"
  using assms by (simp add: detectHeartBeat_Adaptive_def Let_def fallingEdge_always)

lemma bpm_quotient:
  fixes delta :: "32 word"
  shows "sint (60000 div delta) = 60000 div uint delta"
proof -
  have u: "uint (60000 div delta) = 60000 div uint delta"
    by (simp add: uint_div)
  have e: "60000 div uint delta = int (60000 div unat delta)"
    by (simp add: zdiv_int)
  have "int (60000 div unat delta) \<le> int 60000"
    by (intro of_nat_mono div_le_dividend)
  then have "60000 div uint delta \<le> 60000" by (simp add: e)
  moreover have "0 \<le> 60000 div uint delta"
    unfolding e by (rule of_nat_0_le_iff)
  ultimately have "signed_take_bit 31 (60000 div uint delta) = 60000 div uint delta"
    by (intro signed_take_bit_int_eq_self) simp_all
  then show ?thesis
    by (simp add: sint_uint u)
qed

lemma replicate_RATE_SIZE: "replicate RATE_SIZE x = [x, x, x, x]"
  by (simp add: RATE_SIZE_def numeral_eq_Suc)

lemma pulseNode_falling:
  "irAC pulseNode \<ge> 30" "inPulse pulseNode" "irValue pulseNode < threshold pulseNode"
  "0 \<le> sint (lastBeat pulseNode)"
  by (simp_all add: pulseNode_def initialNode_def threshold_def signed_divide_int_def)

lemma weakNode_falling:
  "irAC (pulseNode\<lparr>irAC := 29\<rparr>) < 30" "inPulse (pulseNode\<lparr>irAC := 29\<rparr>)"
  "irValue (pulseNode\<lparr>irAC := 29\<rparr>) < threshold (pulseNode\<lparr>irAC := 29\<rparr>)"
  "0 \<le> sint (lastBeat (pulseNode\<lparr>irAC := 29\<rparr>))"
  by (simp_all add: pulseNode_def initialNode_def threshold_def signed_divide_int_def)

lemma lastBeat_set:
  fixes w :: "32 word"
  assumes "0 \<le> sint w"
  shows "0 < sint w \<longleftrightarrow> w \<noteq> 0"
proof -
  have "sint w = 0 \<longleftrightarrow> w = 0" by (rule signed_eq_0_iff)
  with assms show ?thesis by linarith
qed

text \<open>
  C3, as amended: take a tick in a pulse whose sample is below the adaptive threshold.
  When the amplitude is below 30 the detector returns before it looks for an edge: only
  the stable-readings counter changes, and \<open>lastBeat\<close> is not updated. When the
  amplitude is at least 30 the tick is a falling edge, and then, for a last beat before
  \<open>2^31\<close> ms and with delta = now - lastBeat in 32-bit unsigned arithmetic: the
  instantaneous BPM 60000 / delta (an integer quotient) is computed, and the beat counted,
  exactly when \<open>lastBeat\<close> is set (not zero) and 400 ms < delta < 3000 ms, both bounds
  excluded; the beat enters the rate buffer and the inter-beat-interval buffer only when
  moreover 45 <= BPM <= 150; and \<open>lastBeat\<close> becomes now whether the beat is admitted or
  not.
\<close>

theorem falling_edge_beat:
  assumes "inPulse s" and "irValue s < threshold s" and "0 \<le> sint (lastBeat s)"
  shows "(irAC s < 30 \<longrightarrow> detectHeartBeat_Adaptive now s = s\<lparr>stableReadings := 0\<rparr>) \<and>
         (30 \<le> irAC s \<longrightarrow>
         lastBeat (detectHeartBeat_Adaptive now s) = now \<and>
         inPulse (detectHeartBeat_Adaptive now s) = False \<and>
         (lastBeat s \<noteq> 0 \<and> now - lastBeat s > 400 \<and> now - lastBeat s < 3000 \<longrightarrow>
            beatsPerMinute (detectHeartBeat_Adaptive now s) = 60000 div uint (now - lastBeat s) \<and>
            beatCount (detectHeartBeat_Adaptive now s) = beatCount s + 1) \<and>
         (\<not> (lastBeat s \<noteq> 0 \<and> now - lastBeat s > 400 \<and> now - lastBeat s < 3000) \<longrightarrow>
            beatsPerMinute (detectHeartBeat_Adaptive now s) = beatsPerMinute s \<and>
            beatCount (detectHeartBeat_Adaptive now s) = beatCount s) \<and>
         (lastBeat s \<noteq> 0 \<and> now - lastBeat s > 400 \<and> now - lastBeat s < 3000 \<and>
          45 \<le> 60000 div uint (now - lastBeat s) \<and> 60000 div uint (now - lastBeat s) \<le> 150 \<longrightarrow>
            rates (detectHeartBeat_Adaptive now s) =
              (rates s)[rateSpot s := word_of_int (60000 div uint (now - lastBeat s))] \<and>
            rrIntervals (detectHeartBeat_Adaptive now s) =
              (rrIntervals s)[rrIndex s := now - lastBeat s] \<and>
            rateSpot (detectHeartBeat_Adaptive now s) = (rateSpot s + 1) mod 4 \<and>
            rrIndex (detectHeartBeat_Adaptive now s) = (rrIndex s + 1) mod 15) \<and>
         (\<not> (lastBeat s \<noteq> 0 \<and> now - lastBeat s > 400 \<and> now - lastBeat s < 3000 \<and>
          45 \<le> 60000 div uint (now - lastBeat s) \<and> 60000 div uint (now - lastBeat s) \<le> 150) \<longrightarrow>
            rates (detectHeartBeat_Adaptive now s) = rates s \<and>
            rrIntervals (detectHeartBeat_Adaptive now s) = rrIntervals s \<and>
            rateSpot (detectHeartBeat_Adaptive now s) = rateSpot s \<and>
            rrIndex (detectHeartBeat_Adaptive now s) = rrIndex s \<and>
            hrvSampleCount (detectHeartBeat_Adaptive now s) = hrvSampleCount s \<and>
            beatAvg (detectHeartBeat_Adaptive now s) = beatAvg s))"
proof (rule conjI; rule impI)
  assume "irAC s < 30"
  then show "detectHeartBeat_Adaptive now s = s\<lparr>stableReadings := 0\<rparr>"
    by (simp add: detectHeartBeat_Adaptive_def)
next
  assume strong: "30 \<le> irAC s"
  define t where "t = (if irValue s > peakValue s then s\<lparr>peakValue := irValue s\<rparr> else s)"
  define delta where "delta = now - lastBeat s"
  define s' where "s' = detectHeartBeat_Adaptive now s"
  have d: "s' = (fallingEdge now t)\<lparr>lastValue := irValue s\<rparr>"
    unfolding t_def s'_def by (rule detect_falling [OF strong assms(1,2)])
  have t: "lastBeat t = lastBeat s" "beatsPerMinute t = beatsPerMinute s"
    "beatCount t = beatCount s" "rates t = rates s" "rrIntervals t = rrIntervals s"
    "rateSpot t = rateSpot s" "rrIndex t = rrIndex s" "hrvSampleCount t = hrvSampleCount s"
    "beatAvg t = beatAvg s"
    by (simp_all add: t_def)
  have q: "sint (60000 div delta) = 60000 div uint delta"
    by (rule bpm_quotient)
  note set = lastBeat_set [OF assms(3), symmetric]
  have c1: "lastBeat s' = now" and c2: "inPulse s' = False"
    by (simp_all add: d fallingEdge_always)
  have c3: "beatsPerMinute s' = 60000 div uint delta \<and> beatCount s' = beatCount s + 1"
    if "lastBeat s \<noteq> 0 \<and> delta > 400 \<and> delta < 3000"
    using that fallingEdge_computed [of t now]
    by (simp add: d t delta_def q [unfolded delta_def] set)
  have c4: "beatsPerMinute s' = beatsPerMinute s \<and> beatCount s' = beatCount s"
    if "\<not> (lastBeat s \<noteq> 0 \<and> delta > 400 \<and> delta < 3000)"
    using that fallingEdge_not_computed [of t now]
    by (simp add: d t delta_def set)
  have c5: "rates s' = (rates s)[rateSpot s := word_of_int (60000 div uint delta)] \<and>
      rrIntervals s' = (rrIntervals s)[rrIndex s := delta] \<and>
      rateSpot s' = (rateSpot s + 1) mod 4 \<and> rrIndex s' = (rrIndex s + 1) mod 15"
    if "lastBeat s \<noteq> 0 \<and> delta > 400 \<and> delta < 3000 \<and>
        45 \<le> 60000 div uint delta \<and> 60000 div uint delta \<le> 150"
    using that fallingEdge_admitted [of t now]
    by (simp add: d t delta_def q [unfolded delta_def] set)
  have c6: "rates s' = rates s \<and> rrIntervals s' = rrIntervals s \<and> rateSpot s' = rateSpot s \<and>
      rrIndex s' = rrIndex s \<and> hrvSampleCount s' = hrvSampleCount s \<and> beatAvg s' = beatAvg s"
    if "\<not> (lastBeat s \<noteq> 0 \<and> delta > 400 \<and> delta < 3000 \<and>
        45 \<le> 60000 div uint delta \<and> 60000 div uint delta \<le> 150)"
    using that fallingEdge_not_admitted [of t now]
    by (simp add: d t delta_def q [unfolded delta_def] set)
  from c1 c2 c3 c4 c5 c6 show
    "lastBeat (detectHeartBeat_Adaptive now s) = now \<and>
         inPulse (detectHeartBeat_Adaptive now s) = False \<and>
         (lastBeat s \<noteq> 0 \<and> now - lastBeat s > 400 \<and> now - lastBeat s < 3000 \<longrightarrow>
            beatsPerMinute (detectHeartBeat_Adaptive now s) = 60000 div uint (now - lastBeat s) \<and>
            beatCount (detectHeartBeat_Adaptive now s) = beatCount s + 1) \<and>
         (\<not> (lastBeat s \<noteq> 0 \<and> now - lastBeat s > 400 \<and> now - lastBeat s < 3000) \<longrightarrow>
            beatsPerMinute (detectHeartBeat_Adaptive now s) = beatsPerMinute s \<and>
            beatCount (detectHeartBeat_Adaptive now s) = beatCount s) \<and>
         (lastBeat s \<noteq> 0 \<and> now - lastBeat s > 400 \<and> now - lastBeat s < 3000 \<and>
          45 \<le> 60000 div uint (now - lastBeat s) \<and> 60000 div uint (now - lastBeat s) \<le> 150 \<longrightarrow>
            rates (detectHeartBeat_Adaptive now s) =
              (rates s)[rateSpot s := word_of_int (60000 div uint (now - lastBeat s))] \<and>
            rrIntervals (detectHeartBeat_Adaptive now s) =
              (rrIntervals s)[rrIndex s := now - lastBeat s] \<and>
            rateSpot (detectHeartBeat_Adaptive now s) = (rateSpot s + 1) mod 4 \<and>
            rrIndex (detectHeartBeat_Adaptive now s) = (rrIndex s + 1) mod 15) \<and>
         (\<not> (lastBeat s \<noteq> 0 \<and> now - lastBeat s > 400 \<and> now - lastBeat s < 3000 \<and>
          45 \<le> 60000 div uint (now - lastBeat s) \<and> 60000 div uint (now - lastBeat s) \<le> 150) \<longrightarrow>
            rates (detectHeartBeat_Adaptive now s) = rates s \<and>
            rrIntervals (detectHeartBeat_Adaptive now s) = rrIntervals s \<and>
            rateSpot (detectHeartBeat_Adaptive now s) = rateSpot s \<and>
            rrIndex (detectHeartBeat_Adaptive now s) = rrIndex s \<and>
            hrvSampleCount (detectHeartBeat_Adaptive now s) = hrvSampleCount s \<and>
            beatAvg (detectHeartBeat_Adaptive now s) = beatAvg s)"
    unfolding s'_def delta_def by blast
qed

theorem falling_edge_beat_witness:
  "inPulse pulseNode \<and> irValue pulseNode < threshold pulseNode \<and>
   0 \<le> sint (lastBeat pulseNode) \<and> 30 \<le> irAC pulseNode \<and>
   lastBeat pulseNode \<noteq> 0 \<and> 2000 - lastBeat pulseNode = 1000 \<and>
   beatsPerMinute (detectHeartBeat_Adaptive 2000 pulseNode) = 60 \<and>
   beatCount (detectHeartBeat_Adaptive 2000 pulseNode) = 1 \<and>
   rates (detectHeartBeat_Adaptive 2000 pulseNode) = [60, 0, 0, 0] \<and>
   rrIntervals (detectHeartBeat_Adaptive 2000 pulseNode) ! 0 = 1000 \<and>
   lastBeat (detectHeartBeat_Adaptive 2000 pulseNode) = 2000 \<and>
   4500 - lastBeat pulseNode = 3500 \<and>
   beatsPerMinute (detectHeartBeat_Adaptive 4500 pulseNode) = 0 \<and>
   rates (detectHeartBeat_Adaptive 4500 pulseNode) = [0, 0, 0, 0] \<and>
   lastBeat (detectHeartBeat_Adaptive 4500 pulseNode) = 4500 \<and>
   irAC (pulseNode\<lparr>irAC := 29\<rparr>) < 30 \<and>
   lastBeat (detectHeartBeat_Adaptive 2000 (pulseNode\<lparr>irAC := 29\<rparr>)) = 1000 \<and>
   inPulse (detectHeartBeat_Adaptive 2000 (pulseNode\<lparr>irAC := 29\<rparr>)) = True"
proof -
  have v: "lastBeat pulseNode = 1000" "beatsPerMinute pulseNode = 0" "beatCount pulseNode = 0"
    "rates pulseNode = [0, 0, 0, 0]" "rateSpot pulseNode = 0" "rrIndex pulseNode = 0"
    "rrIntervals pulseNode = replicate 15 0" "inPulse pulseNode = True"
    by (simp_all add: pulseNode_def initialNode_def replicate_RATE_SIZE RR_INTERVAL_SIZE_def)
  note strong = falling_edge_beat [OF pulseNode_falling(2,3,4), THEN conjunct2, rule_format,
      OF pulseNode_falling(1)]
  note beat = strong [of 2000, unfolded v]
  note late = strong [of 4500, unfolded v]
  note weak = falling_edge_beat [OF weakNode_falling(2,3,4), of 2000, THEN conjunct1,
      rule_format, OF weakNode_falling(1)]
  have "beatsPerMinute (detectHeartBeat_Adaptive 2000 pulseNode) = 60 \<and>
      beatCount (detectHeartBeat_Adaptive 2000 pulseNode) = 1"
    using beat [THEN conjunct2, THEN conjunct2, THEN conjunct1] by simp
  moreover have "rates (detectHeartBeat_Adaptive 2000 pulseNode) = [60, 0, 0, 0] \<and>
      rrIntervals (detectHeartBeat_Adaptive 2000 pulseNode) ! 0 = 1000"
    using beat [THEN conjunct2, THEN conjunct2, THEN conjunct2, THEN conjunct2, THEN conjunct1]
    by simp
  moreover have "lastBeat (detectHeartBeat_Adaptive 2000 pulseNode) = 2000"
    using beat [THEN conjunct1] by simp
  moreover have "beatsPerMinute (detectHeartBeat_Adaptive 4500 pulseNode) = 0"
    using late [THEN conjunct2, THEN conjunct2, THEN conjunct2, THEN conjunct1] by simp
  moreover have "rates (detectHeartBeat_Adaptive 4500 pulseNode) = [0, 0, 0, 0]"
    using late [THEN conjunct2, THEN conjunct2, THEN conjunct2, THEN conjunct2, THEN conjunct2]
    by simp
  moreover have "lastBeat (detectHeartBeat_Adaptive 4500 pulseNode) = 4500"
    using late [THEN conjunct1] by simp
  moreover have "lastBeat (detectHeartBeat_Adaptive 2000 (pulseNode\<lparr>irAC := 29\<rparr>)) = 1000"
    "inPulse (detectHeartBeat_Adaptive 2000 (pulseNode\<lparr>irAC := 29\<rparr>)) = True"
    unfolding weak by (simp_all add: v)
  ultimately show ?thesis
    using pulseNode_falling by (simp add: v)
qed

text \<open>
  At an interval of exactly 400 ms (150 BPM) or exactly 3000 ms nothing is computed; and
  a sample below the threshold in a pulse with an amplitude of 29 is not handled as a
  falling edge: \<open>lastBeat\<close> and the in-pulse flag stay as they were.
\<close>

theorem boundary_interval_rejected:
  "irAC pulseNode \<ge> 30 \<and> inPulse pulseNode \<and> irValue pulseNode < threshold pulseNode \<and>
   lastBeat pulseNode = 1000 \<and> 1400 - lastBeat pulseNode = 400 \<and>
   60000 div uint (1400 - lastBeat pulseNode) = 150 \<and>
   beatsPerMinute (detectHeartBeat_Adaptive 1400 pulseNode) = 0 \<and>
   beatCount (detectHeartBeat_Adaptive 1400 pulseNode) = 0 \<and>
   rates (detectHeartBeat_Adaptive 1400 pulseNode) = [0, 0, 0, 0] \<and>
   4000 - lastBeat pulseNode = 3000 \<and>
   beatsPerMinute (detectHeartBeat_Adaptive 4000 pulseNode) = 0 \<and>
   beatCount (detectHeartBeat_Adaptive 4000 pulseNode) = 0 \<and>
   inPulse (pulseNode\<lparr>irAC := 29\<rparr>) \<and>
   irValue (pulseNode\<lparr>irAC := 29\<rparr>) < threshold (pulseNode\<lparr>irAC := 29\<rparr>) \<and>
   lastBeat (detectHeartBeat_Adaptive 2000 (pulseNode\<lparr>irAC := 29\<rparr>)) = 1000 \<and>
   inPulse (detectHeartBeat_Adaptive 2000 (pulseNode\<lparr>irAC := 29\<rparr>)) = True"
  by (simp add: detectHeartBeat_Adaptive_def fallingEdge_def threshold_def pulseNode_def
      initialNode_def Let_def signed_divide_int_def replicate_RATE_SIZE)

section \<open>Heart-rate variability\<close>

lemma fold_sum:
  "fold (\<lambda>i acc. acc + f i) [0..<n] (a::real) = a + (\<Sum>i<n. f i)"
  by (induction n) simp_all

lemma fold_sum_count:
  "fold (\<lambda>i (acc, cnt). (acc + f i, Suc cnt)) [m..<n] (a::real, c::nat) =
   (a + (\<Sum>i = m..<n. f i), c + (n - m))"
proof (induction n)
  case 0
  show ?case by simp
next
  case (Suc n)
  show ?case
  proof (cases "m \<le> n")
    case True
    then show ?thesis using Suc by (simp add: Suc_diff_le)
  next
    case False
    then show ?thesis by simp
  qed
qed

lemma calculateHRV_values:
  assumes "5 \<le> hrvSampleCount s"
  shows "hrv_SDNN (calculateHRV s) =
        sqrt ((\<Sum>i < hrvSampleCount s.
                 (real (unat (rrIntervals s ! i))
                  - (\<Sum>j < hrvSampleCount s. real (unat (rrIntervals s ! j)))
                      / real (hrvSampleCount s)) ^ 2)
              / real (hrvSampleCount s))"
    and "hrv_RMSSD (calculateHRV s) =
        sqrt ((\<Sum>i = 1..<hrvSampleCount s.
                 real_of_int (sint ((rrIntervals s ! i - rrIntervals s ! (i - 1))
                                    * (rrIntervals s ! i - rrIntervals s ! (i - 1)))))
              / real (hrvSampleCount s - 1))"
  using assms
  by (simp_all add: calculateHRV_def Let_def fold_sum fold_sum_count power2_eq_square
      split: prod.split)

lemma sint_small:
  fixes a :: "32 word"
  assumes "uint a \<le> 46340"
  shows "sint a = uint a"
proof -
  have "- 2147483648 \<le> uint a" "uint a < 2147483648"
    using assms uint_ge_0 [of a] by linarith+
  then have "- (2 ^ 31) \<le> uint a" "uint a < 2 ^ 31"
    by simp_all
  then have "signed_take_bit 31 (uint a) = uint a"
    by (rule signed_take_bit_int_eq_self)
  then show ?thesis by (simp add: sint_uint)
qed

lemma diff_square:
  fixes a b :: "32 word"
  assumes "uint a \<le> 46340" and "uint b \<le> 46340"
  shows "sint ((a - b) * (a - b)) = (uint a - uint b) ^ 2"
proof -
  define d where "d = uint a - uint b"
  have lo: "- 46340 \<le> d" and hi: "d \<le> 46340"
    unfolding d_def using assms uint_ge_0 [of a] uint_ge_0 [of b] by linarith+
  have "sint (a - b) = signed_take_bit 31 (sint a - sint b)"
    by (simp add: sint_word_ariths)
  also have "\<dots> = signed_take_bit 31 d"
    by (simp add: sint_small assms d_def)
  also have "\<dots> = d"
  proof (rule signed_take_bit_int_eq_self)
    show "- (2 ^ 31) \<le> d" using lo by simp
    show "d < 2 ^ 31" using hi by simp
  qed
  finally have sd: "sint (a - b) = d" .
  have "\<bar>d\<bar> \<le> 46340" using lo hi by simp
  then have "\<bar>d\<bar> * \<bar>d\<bar> \<le> 46340 * 46340"
    by (intro mult_mono) simp_all
  then have sq: "d * d \<le> 2147395600" by (simp add: abs_mult_self_eq)
  have "sint ((a - b) * (a - b)) = signed_take_bit 31 (sint (a - b) * sint (a - b))"
    by (simp add: sint_word_ariths)
  also have "\<dots> = signed_take_bit 31 (d * d)"
    by (simp add: sd)
  also have "\<dots> = d * d"
  proof (rule signed_take_bit_int_eq_self)
    have "0 \<le> d * d" by simp
    then have "- 2147483648 \<le> d * d" by linarith
    then show "- (2 ^ 31) \<le> d * d" by simp
    show "d * d < 2 ^ 31" using sq by simp
  qed
  finally show ?thesis
    by (simp add: d_def power2_eq_square)
qed

text \<open>
  C5: with fewer than 5 accepted inter-beat intervals the HRV calculation reports SDNN
  and RMSSD as zero; and for N >= 5 intervals that are all 1000 ms both are zero as well.
  In general SDNN is the population standard deviation of the first N buffer entries
  (the sum of squared deviations from their mean, divided by N), and RMSSD is the root
  of the mean of the N - 1 squared differences of successive entries in buffer order
  (for entries up to 46340 ms, whose squared differences fit the \<^verbatim>\<open>long\<close> product).
\<close>

theorem hrv_short_or_constant:
  "(hrvSampleCount s < 5 \<longrightarrow>
      hrv_SDNN (calculateHRV s) = 0 \<and> hrv_RMSSD (calculateHRV s) = 0) \<and>
   (5 \<le> hrvSampleCount s \<and> (\<forall>i < hrvSampleCount s. rrIntervals s ! i = 1000) \<longrightarrow>
      hrv_SDNN (calculateHRV s) = 0 \<and> hrv_RMSSD (calculateHRV s) = 0) \<and>
   (5 \<le> hrvSampleCount s \<longrightarrow>
      hrv_SDNN (calculateHRV s) =
        sqrt ((\<Sum>i < hrvSampleCount s.
                 (real (unat (rrIntervals s ! i))
                  - (\<Sum>j < hrvSampleCount s. real (unat (rrIntervals s ! j)))
                      / real (hrvSampleCount s)) ^ 2)
              / real (hrvSampleCount s))) \<and>
   (5 \<le> hrvSampleCount s \<and> (\<forall>i < hrvSampleCount s. uint (rrIntervals s ! i) \<le> 46340) \<longrightarrow>
      hrv_RMSSD (calculateHRV s) =
        sqrt ((\<Sum>i = 1..<hrvSampleCount s.
                 (real (unat (rrIntervals s ! i)) - real (unat (rrIntervals s ! (i - 1)))) ^ 2)
              / real (hrvSampleCount s - 1)))"
proof (intro conjI impI)
  assume "hrvSampleCount s < 5"
  then show "hrv_SDNN (calculateHRV s) = 0" "hrv_RMSSD (calculateHRV s) = 0"
    by (simp_all add: calculateHRV_def)
next
  assume n: "5 \<le> hrvSampleCount s"
  show "hrv_SDNN (calculateHRV s) =
        sqrt ((\<Sum>i < hrvSampleCount s.
                 (real (unat (rrIntervals s ! i))
                  - (\<Sum>j < hrvSampleCount s. real (unat (rrIntervals s ! j)))
                      / real (hrvSampleCount s)) ^ 2)
              / real (hrvSampleCount s))"
    by (rule calculateHRV_values(1) [OF n])
next
  assume c: "5 \<le> hrvSampleCount s \<and> (\<forall>i < hrvSampleCount s. uint (rrIntervals s ! i) \<le> 46340)"
  then have n: "5 \<le> hrvSampleCount s"
    and k: "\<And>i. i < hrvSampleCount s \<Longrightarrow> uint (rrIntervals s ! i) \<le> 46340"
    by simp_all
  have "real_of_int (sint ((rrIntervals s ! i - rrIntervals s ! (i - 1))
                                    * (rrIntervals s ! i - rrIntervals s ! (i - 1)))) =
      (real (unat (rrIntervals s ! i)) - real (unat (rrIntervals s ! (i - 1)))) ^ 2"
    if "i \<in> {1..<hrvSampleCount s}" for i
  proof -
    from that have "i < hrvSampleCount s" "i - 1 < hrvSampleCount s" by auto
    then have "uint (rrIntervals s ! i) \<le> 46340" "uint (rrIntervals s ! (i - 1)) \<le> 46340"
      using k by blast+
    then have "sint ((rrIntervals s ! i - rrIntervals s ! (i - 1))
                                    * (rrIntervals s ! i - rrIntervals s ! (i - 1))) =
        (uint (rrIntervals s ! i) - uint (rrIntervals s ! (i - 1))) ^ 2"
      by (rule diff_square)
    then show ?thesis by simp
  qed
  then have "(\<Sum>i = 1..<hrvSampleCount s.
                 real_of_int (sint ((rrIntervals s ! i - rrIntervals s ! (i - 1))
                                    * (rrIntervals s ! i - rrIntervals s ! (i - 1))))) =
      (\<Sum>i = 1..<hrvSampleCount s.
                 (real (unat (rrIntervals s ! i)) - real (unat (rrIntervals s ! (i - 1)))) ^ 2)"
    by (intro sum.cong refl)
  then show "hrv_RMSSD (calculateHRV s) =
        sqrt ((\<Sum>i = 1..<hrvSampleCount s.
                 (real (unat (rrIntervals s ! i)) - real (unat (rrIntervals s ! (i - 1)))) ^ 2)
              / real (hrvSampleCount s - 1))"
    using calculateHRV_values(2) [OF n] by (simp only:)
next
  assume c: "5 \<le> hrvSampleCount s \<and> (\<forall>i < hrvSampleCount s. rrIntervals s ! i = 1000)"
  define n where "n = hrvSampleCount s"
  define x where "x i = real (unat (rrIntervals s ! i))" for i
  define d where "d i = real_of_int (sint ((rrIntervals s ! i - rrIntervals s ! (i - 1))
                                    * (rrIntervals s ! i - rrIntervals s ! (i - 1))))" for i
  from c have n: "5 \<le> hrvSampleCount s"
    and k: "\<And>i. i < n \<Longrightarrow> rrIntervals s ! i = 1000"
    by (simp_all add: n_def)
  have x: "x i = 1000" if "i < n" for i
    using k [OF that] by (simp add: x_def)
  have "(\<Sum>j < n. x j) = (\<Sum>j < n. 1000)"
    by (intro sum.cong) (simp_all add: x)
  then have mean: "(\<Sum>j < n. x j) / real n = 1000"
    using n by (simp add: n_def)
  have v: "(\<Sum>i < n. (x i - 1000) ^ 2) = 0"
    by (intro sum.neutral) (simp add: x)
  have dz: "d i = 0" if "i \<in> {1..<n}" for i
  proof -
    from that have "i < n" "i - 1 < n" by auto
    then have "rrIntervals s ! i = 1000" "rrIntervals s ! (i - 1) = 1000"
      using k by blast+
    then show ?thesis by (simp add: d_def)
  qed
  have ds: "(\<Sum>i = 1..<n. d i) = 0"
    by (intro sum.neutral ballI dz)
  have "hrv_SDNN (calculateHRV s) = sqrt ((\<Sum>i < n. (x i - (\<Sum>j < n. x j) / real n) ^ 2) / real n)"
    unfolding n_def x_def by (rule calculateHRV_values(1) [OF n])
  then show "hrv_SDNN (calculateHRV s) = 0"
    by (simp only: mean v) simp
  have "hrv_RMSSD (calculateHRV s) = sqrt ((\<Sum>i = 1..<n. d i) / real (n - 1))"
    unfolding n_def d_def by (rule calculateHRV_values(2) [OF n])
  then show "hrv_RMSSD (calculateHRV s) = 0"
    by (simp only: ds) simp
qed

theorem hrv_short_or_constant_witness:
  "hrvSampleCount ((initialNode True)\<lparr>hrvSampleCount := 3, hrv_SDNN := 12, hrv_RMSSD := 7\<rparr>) < 5 \<and>
   hrv_SDNN (calculateHRV
     ((initialNode True)\<lparr>hrvSampleCount := 3, hrv_SDNN := 12, hrv_RMSSD := 7\<rparr>)) = 0 \<and>
   hrv_RMSSD (calculateHRV
     ((initialNode True)\<lparr>hrvSampleCount := 3, hrv_SDNN := 12, hrv_RMSSD := 7\<rparr>)) = 0 \<and>
   5 \<le> hrvSampleCount ((initialNode True)\<lparr>rrIntervals := replicate 15 1000,
     hrvSampleCount := 6, hrv_SDNN := 12, hrv_RMSSD := 7\<rparr>) \<and>
   hrv_SDNN (calculateHRV ((initialNode True)\<lparr>rrIntervals := replicate 15 1000,
     hrvSampleCount := 6, hrv_SDNN := 12, hrv_RMSSD := 7\<rparr>)) = 0 \<and>
   hrv_RMSSD (calculateHRV ((initialNode True)\<lparr>rrIntervals := replicate 15 1000,
     hrvSampleCount := 6, hrv_SDNN := 12, hrv_RMSSD := 7\<rparr>)) = 0"
proof -
  let ?short = "(initialNode True)\<lparr>hrvSampleCount := 3, hrv_SDNN := 12, hrv_RMSSD := 7\<rparr>"
  let ?steady = "(initialNode True)\<lparr>rrIntervals := replicate 15 1000,
     hrvSampleCount := 6, hrv_SDNN := 12, hrv_RMSSD := 7\<rparr>"
  have a: "hrvSampleCount ?short < 5" by simp
  have b: "5 \<le> hrvSampleCount ?steady \<and>
      (\<forall>i < hrvSampleCount ?steady. rrIntervals ?steady ! i = 1000)"
    by simp
  have c: "5 \<le> hrvSampleCount ?steady \<and>
      (\<forall>i < hrvSampleCount ?steady. uint (rrIntervals ?steady ! i) \<le> 46340)"
    by simp
  from hrv_short_or_constant [of ?short, THEN conjunct1, rule_format, OF a]
    hrv_short_or_constant [of ?steady, THEN conjunct2, THEN conjunct1, rule_format, OF b]
    hrv_short_or_constant [of ?steady, THEN conjunct2, THEN conjunct2, THEN conjunct2,
      rule_format, OF c]
    a b
  show ?thesis by simp
qed

end
